(* ===== verification/Prelude.thy ===== *)
theory Prelude
  imports Main
begin

text \<open>
  Shared vocabulary of the development: the JavaScript string operations that
  \<^verbatim>\<open>src/script.js\<close> relies on (\<^verbatim>\<open>trim\<close>, \<^verbatim>\<open>toLowerCase\<close>, the regex
  classes \<^verbatim>\<open>\s\<close>, \<^verbatim>\<open>\d\<close> and \<^verbatim>\<open>[A-Z]\<close>, \<^verbatim>\<open>String.prototype.replace\<close>
  with a string pattern), the JavaScript object that \<^verbatim>\<open>Object.fromEntries\<close>
  builds from form data, and the lemma collections the component theories share.

  Strings are HOL strings (lists of 8-bit \<open>char\<close>s); a character is read as the
  Latin-1 code unit of the same number, so the JavaScript whitespace and case tables are
  given for code units 0 to 255 and code units above 255 are not represented.
\<close>

named_theorems js_string_simps
  \<open>evaluation rules for the JavaScript string helpers on literals\<close>
named_theorems handler_simps
  \<open>unfolding rules for the event handlers of the script\<close>

subsection \<open>Character classes\<close>

text \<open>JavaScript \<^verbatim>\<open>\s\<close> (WhiteSpace and LineTerminator) restricted to code units
  0 to 255: tab, line feed, vertical tab, form feed, carriage return, space and
  no-break space.\<close>

definition js_space :: "char \<Rightarrow> bool" where
  "js_space c \<longleftrightarrow> of_char c \<in> {9, 10, 11, 12, 13, 32, 160 :: nat}"

text \<open>JavaScript \<^verbatim>\<open>\d\<close>: the ASCII digits only.\<close>

definition js_digit :: "char \<Rightarrow> bool" where
  "js_digit c \<longleftrightarrow> 48 \<le> (of_char c :: nat) \<and> (of_char c :: nat) \<le> 57"

text \<open>The regex class \<^verbatim>\<open>[A-Z]\<close>.\<close>

definition js_upper :: "char \<Rightarrow> bool" where
  "js_upper c \<longleftrightarrow> 65 \<le> (of_char c :: nat) \<and> (of_char c :: nat) \<le> 90"

text \<open>\<^verbatim>\<open>toLowerCase\<close> on one code unit: ASCII capitals and the Latin-1 capitals
  U+00C0 to U+00DE except the multiplication sign U+00D7 move up by 32.\<close>

definition js_lower_char :: "char \<Rightarrow> char" where
  "js_lower_char c =
     (let n = (of_char c :: nat)
      in if (65 \<le> n \<and> n \<le> 90) \<or> (192 \<le> n \<and> n \<le> 222 \<and> n \<noteq> 215)
         then char_of (n + 32) else c)"

definition js_to_lower :: "string \<Rightarrow> string" where
  "js_to_lower s = map js_lower_char s"

subsection \<open>String methods\<close>

text \<open>\<^verbatim>\<open>String.prototype.trim\<close>: whitespace removed at both ends.\<close>

definition js_trim :: "string \<Rightarrow> string" where
  "js_trim s = rev (dropWhile js_space (rev (dropWhile js_space s)))"

text \<open>\<^verbatim>\<open>s.replace(pat, rep)\<close> with a string pattern replaces the first occurrence
  only; an empty pattern matches at position 0.\<close>

fun replace_first :: "string \<Rightarrow> string \<Rightarrow> string \<Rightarrow> string" where
  "replace_first pat rep [] = (if pat = [] then rep else [])"
| "replace_first pat rep (c # cs) =
     (if take (length pat) (c # cs) = pat then rep @ drop (length pat) (c # cs)
      else c # replace_first pat rep cs)"

text \<open>\<^verbatim>\<open>s.replace(/\D/g, '')\<close>: every non-digit removed.\<close>

definition strip_non_digits :: "string \<Rightarrow> string" where
  "strip_non_digits s = filter js_digit s"

subsection \<open>Objects built from form data\<close>

text \<open>\<^verbatim>\<open>Object.fromEntries(formData)\<close> is a map from field name to value; a
  name that occurs twice keeps its last value, which is \<open>map_of\<close> of the reversed
  entry list.\<close>

type_synonym form_data = "string \<rightharpoonup> string"

definition from_entries :: "(string \<times> string) list \<Rightarrow> form_data" where
  "from_entries es = map_of (rev es)"

subsection \<open>Shared lemmas\<close>

lemma dropWhile_all_iff: "(\<forall>x \<in> set (dropWhile P s). P x) \<longleftrightarrow> (\<forall>x \<in> set s. P x)"
  by (induction s) auto

lemma js_trim_Nil_iff [simp]: "js_trim s = [] \<longleftrightarrow> (\<forall>c \<in> set s. js_space c)"
  by (simp add: js_trim_def dropWhile_eq_Nil_conv dropWhile_all_iff)

lemma js_trim_Nil [simp, js_string_simps]: "js_trim [] = []"
  by (simp add: js_trim_def)

lemma non_digit_punct [js_string_simps]:
  "\<not> js_digit CHR ''(''" "\<not> js_digit CHR '')''" "\<not> js_digit CHR '' ''" "\<not> js_digit CHR ''-''"
  by (simp_all add: js_digit_def)

lemma strip_punct [js_string_simps]:
  "strip_non_digits ''('' = []" "strip_non_digits '') '' = []" "strip_non_digits ''-'' = []"
  by (simp_all add: strip_non_digits_def js_digit_def)

lemma strip_non_digits_append [simp]:
  "strip_non_digits (xs @ ys) = strip_non_digits xs @ strip_non_digits ys"
  by (simp add: strip_non_digits_def)

lemma strip_non_digits_idem [simp]: "strip_non_digits (strip_non_digits s) = strip_non_digits s"
  by (simp add: strip_non_digits_def)

lemma set_strip_non_digits: "c \<in> set (strip_non_digits s) \<Longrightarrow> js_digit c"
  by (simp add: strip_non_digits_def)

lemma from_entries_append: "from_entries (xs @ ys) = from_entries xs ++ from_entries ys"
  by (simp add: from_entries_def)

lemma from_entries_simps [simp]:
  "from_entries [] = Map.empty"
  "from_entries ((k, v) # es) = [k \<mapsto> v] ++ from_entries es"
  by (simp_all add: from_entries_def)

lemma from_entries_None_iff: "from_entries es k = None \<longleftrightarrow> k \<notin> fst ` set es"
  by (simp add: from_entries_def map_of_eq_None_iff)

subsection \<open>Integer division\<close>

text \<open>Quotient bounds for the calendar arithmetic of the date code.\<close>

lemma int_div_eqI:
  fixes a b q :: int
  assumes "0 < b" "b * q \<le> a" "a < b * q + b"
  shows "a div b = q"
proof -
  have "(a - b * q + q * b) div b = q + (a - b * q) div b"
    using assms(1) by (simp only: div_mult_self1)
  moreover have "(a - b * q) div b = 0" using assms by (simp add: div_pos_pos_trivial)
  ultimately show ?thesis by (simp add: mult.commute)
qed

lemma div_bounds:
  fixes a b :: int
  assumes "0 < b"
  shows "b * (a div b) \<le> a" "a < b * (a div b) + b"
proof -
  have "a = b * (a div b) + a mod b" by simp
  moreover have "0 \<le> a mod b" "a mod b < b" using assms by simp_all
  ultimately show "b * (a div b) \<le> a" "a < b * (a div b) + b" by linarith+
qed

end
