(* ===== verification/Regex.thy ===== *)
theory Regex
  imports Prelude
begin

text \<open>
  The regular expressions of \<^verbatim>\<open>src/script.js\<close> that are tested against whole
  strings: \<^verbatim>\<open>emailRegex\<close> (line 144) and \<^verbatim>\<open>phoneRegex\<close> (line 149). Both are
  anchored by \<^verbatim>\<open>^\<close> and \<^verbatim>\<open>$\<close> and use no back-references, look-arounds or
  flags, so \<^verbatim>\<open>RegExp.prototype.test\<close> holds exactly when the whole string is in
  the language of the pattern; the backtracking order of the JavaScript engine does not
  change the answer. The theory gives the pattern syntax the script uses (\<open>rx\<close>), its
  language (\<open>lang\<close>), an executable matcher by Brzozowski derivatives
  (\<open>rx_matches\<close>) and the proof that the matcher decides the language.
\<close>

subsection \<open>Syntax and language\<close>

text \<open>An item of a bracket class: a character, a range \<open>a-z\<close>, \<^verbatim>\<open>\s\<close> or
  \<^verbatim>\<open>\d\<close>.\<close>

datatype citem = CChar char | CRange char char | CSpace | CDigit

datatype rx =
    Zero
  | Eps
  | Lit char
  | Cls bool "citem list"   \<comment> \<open>\<open>Cls True\<close> is a negated class \<open>[^...]\<close>\<close>
  | Seq rx rx
  | Alt rx rx
  | Star rx

fun citem_match :: "citem \<Rightarrow> char \<Rightarrow> bool" where
  "citem_match (CChar d) c = (c = d)"
| "citem_match (CRange a b) c = (of_char a \<le> (of_char c :: nat) \<and> (of_char c :: nat) \<le> of_char b)"
| "citem_match CSpace c = js_space c"
| "citem_match CDigit c = js_digit c"

definition cls_match :: "bool \<Rightarrow> citem list \<Rightarrow> char \<Rightarrow> bool" where
  "cls_match neg items c \<longleftrightarrow> (list_ex (\<lambda>i. citem_match i c) items \<noteq> neg)"

text \<open>The quantifiers \<open>+\<close>, \<open>?\<close> and \<open>{0,n}\<close> are derived forms.\<close>

definition rx_plus :: "rx \<Rightarrow> rx" where
  "rx_plus r = Seq r (Star r)"

definition rx_opt :: "rx \<Rightarrow> rx" where
  "rx_opt r = Alt r Eps"

primrec rx_upto :: "rx \<Rightarrow> nat \<Rightarrow> rx" where
  "rx_upto r 0 = Eps"
| "rx_upto r (Suc n) = Alt Eps (Seq r (rx_upto r n))"

definition conc :: "string set \<Rightarrow> string set \<Rightarrow> string set" where
  "conc A B = {u @ v | u v. u \<in> A \<and> v \<in> B}"

inductive_set star :: "string set \<Rightarrow> string set" for A where
  star_Nil: "[] \<in> star A"
| star_app: "u \<in> A \<Longrightarrow> v \<in> star A \<Longrightarrow> u @ v \<in> star A"

primrec lang :: "rx \<Rightarrow> string set" where
  "lang Zero = {}"
| "lang Eps = {[]}"
| "lang (Lit c) = {[c]}"
| "lang (Cls neg items) = {[c] | c. cls_match neg items c}"
| "lang (Seq r s) = conc (lang r) (lang s)"
| "lang (Alt r s) = lang r \<union> lang s"
| "lang (Star r) = star (lang r)"

subsection \<open>The matcher\<close>

primrec nullable :: "rx \<Rightarrow> bool" where
  "nullable Zero = False"
| "nullable Eps = True"
| "nullable (Lit c) = False"
| "nullable (Cls neg items) = False"
| "nullable (Seq r s) = (nullable r \<and> nullable s)"
| "nullable (Alt r s) = (nullable r \<or> nullable s)"
| "nullable (Star r) = True"

primrec deriv :: "char \<Rightarrow> rx \<Rightarrow> rx" where
  "deriv c Zero = Zero"
| "deriv c Eps = Zero"
| "deriv c (Lit d) = (if c = d then Eps else Zero)"
| "deriv c (Cls neg items) = (if cls_match neg items c then Eps else Zero)"
| "deriv c (Seq r s) =
     (if nullable r then Alt (Seq (deriv c r) s) (deriv c s) else Seq (deriv c r) s)"
| "deriv c (Alt r s) = Alt (deriv c r) (deriv c s)"
| "deriv c (Star r) = Seq (deriv c r) (Star r)"

text \<open>\<^verbatim>\<open>/^r$/.test(s)\<close>.\<close>

definition rx_matches :: "rx \<Rightarrow> string \<Rightarrow> bool" where
  "rx_matches r s = nullable (fold deriv s r)"

subsection \<open>The script's patterns\<close>

text \<open>\<^verbatim>\<open>/^[^\s@]+@[^\s@]+\.[^\s@]+$/\<close> (line 144).\<close>

definition email_part :: rx where
  "email_part = rx_plus (Cls True [CSpace, CChar CHR ''@''])"

definition email_rx :: rx where
  "email_rx = Seq email_part (Seq (Lit CHR ''@'') (Seq email_part (Seq (Lit CHR ''.'') email_part)))"

text \<open>\<^verbatim>\<open>/^[\+]?[1-9][\d]{0,15}$/\<close> (line 149).\<close>

definition phone_rx :: rx where
  "phone_rx = Seq (rx_opt (Cls False [CChar CHR ''+'']))
                (Seq (Cls False [CRange CHR ''1'' CHR ''9'']) (rx_upto (Cls False [CDigit]) 15))"

text \<open>A character the class \<^verbatim>\<open>[^\s@]\<close> admits.\<close>

definition email_char :: "char \<Rightarrow> bool" where
  "email_char c \<longleftrightarrow> \<not> js_space c \<and> c \<noteq> CHR ''@''"

subsection \<open>Correctness of the matcher\<close>

lemma conc_iff: "w \<in> conc A B \<longleftrightarrow> (\<exists>u v. w = u @ v \<and> u \<in> A \<and> v \<in> B)"
  by (auto simp: conc_def)

lemma conc_ConsI: "[c] \<in> A \<Longrightarrow> w \<in> B \<Longrightarrow> c # w \<in> conc A B"
  using conc_iff[of "c # w" A B] by fastforce

lemma nullable_iff [simp]: "nullable r \<longleftrightarrow> [] \<in> lang r"
  by (induction r) (auto simp: conc_iff intro: star.star_Nil)

lemma star_Cons_dest:
  "x \<in> star A \<Longrightarrow> x = c # w \<Longrightarrow> \<exists>u v. w = u @ v \<and> c # u \<in> A \<and> v \<in> star A"
proof (induction arbitrary: w rule: star.induct)
  case star_Nil
  then show ?case by simp
next
  case (star_app u v)
  show ?case
  proof (cases u)
    case Nil
    with star_app show ?thesis by simp
  next
    case (Cons d u')
    with star_app.prems star_app.hyps show ?thesis by auto
  qed
qed

lemma star_Cons_iff:
  "c # w \<in> star A \<longleftrightarrow> (\<exists>u v. w = u @ v \<and> c # u \<in> A \<and> v \<in> star A)"
  using star_Cons_dest[of "c # w" A c w] star.star_app[of "c # _" A] by fastforce

lemma deriv_star: "{w. c # w \<in> star A} = conc {w. c # w \<in> A} (star A)"
  by (auto simp: conc_iff star_Cons_iff) blast

lemma deriv_conc:
  "{w. c # w \<in> conc A B} =
     conc {w. c # w \<in> A} B \<union> (if [] \<in> A then {w. c # w \<in> B} else {})"
  by (auto simp: conc_iff Cons_eq_append_conv) (metis)+

lemma lang_deriv: "lang (deriv c r) = {w. c # w \<in> lang r}"
proof (induction r)
  case (Seq r s)
  then show ?case by (simp add: deriv_conc)
next
  case (Star r)
  then show ?case by (simp add: deriv_star)
qed auto

lemma lang_fold_deriv: "lang (fold deriv s r) = {w. s @ w \<in> lang r}"
  by (induction s arbitrary: r) (auto simp: lang_deriv)

text \<open>The derivative matcher decides membership in the language of any pattern,
  so \<open>rx_matches\<close> is \<^verbatim>\<open>test\<close> of an anchored pattern.\<close>

lemma rx_matches_lang: "rx_matches r s \<longleftrightarrow> s \<in> lang r"
  by (simp add: rx_matches_def lang_fold_deriv)

subsection \<open>The languages of the script's patterns\<close>

lemma star_chars: "star {[c] | c. P c} = {u. \<forall>c \<in> set u. P c}"
proof (intro set_eqI iffI)
  fix u assume "u \<in> star {[c] | c. P c}"
  then show "u \<in> {u. \<forall>c \<in> set u. P c}" by induction auto
next
  fix u assume "u \<in> {u. \<forall>c \<in> set u. P c}"
  then show "u \<in> star {[c] | c. P c}"
  proof (induction u)
    case Nil
    show ?case by (rule star.star_Nil)
  next
    case (Cons c u)
    then have "[c] @ u \<in> star {[c] | c. P c}" by (intro star.star_app) auto
    then show ?case by simp
  qed
qed


subsection \<open>The languages of the script's patterns\<close>

lemma lang_plus_cls:
  "lang (rx_plus (Cls neg items)) = {u. u \<noteq> [] \<and> (\<forall>c \<in> set u. cls_match neg items c)}"
proof (intro set_eqI iffI)
  fix u assume "u \<in> lang (rx_plus (Cls neg items))"
  then show "u \<in> {u. u \<noteq> [] \<and> (\<forall>c \<in> set u. cls_match neg items c)}"
    by (auto simp: rx_plus_def conc_iff star_chars)
next
  fix u assume "u \<in> {u. u \<noteq> [] \<and> (\<forall>c \<in> set u. cls_match neg items c)}"
  then obtain c w where u: "u = [c] @ w" and "[c] \<in> lang (Cls neg items)"
      and "w \<in> lang (Star (Cls neg items))"
    by (cases u) (auto simp: star_chars)
  then show "u \<in> lang (rx_plus (Cls neg items))"
    by (simp add: rx_plus_def conc_ConsI del: lang.simps(4))
qed

lemma lang_upto_cls:
  "lang (rx_upto (Cls neg items) n) =
     {u. length u \<le> n \<and> (\<forall>c \<in> set u. cls_match neg items c)}"
proof (induction n)
  case 0
  then show ?case by auto
next
  case (Suc n)
  show ?case
  proof (intro set_eqI iffI)
    fix u assume "u \<in> lang (rx_upto (Cls neg items) (Suc n))"
    with Suc.IH show "u \<in> {u. length u \<le> Suc n \<and> (\<forall>c \<in> set u. cls_match neg items c)}"
      by (auto simp: conc_iff)
  next
    fix u assume u: "u \<in> {u. length u \<le> Suc n \<and> (\<forall>c \<in> set u. cls_match neg items c)}"
    show "u \<in> lang (rx_upto (Cls neg items) (Suc n))"
    proof (cases u)
      case Nil
      then show ?thesis by simp
    next
      case (Cons c w)
      with u Suc.IH have "[c] \<in> lang (Cls neg items)" "w \<in> lang (rx_upto (Cls neg items) n)"
        by auto
      with Cons show ?thesis by (simp add: conc_ConsI)
    qed
  qed
qed
lemma conc_single_iff: "s \<in> conc {[c]} B \<longleftrightarrow> (\<exists>w. s = c # w \<and> w \<in> B)"
  by (auto simp: conc_iff)

lemma lang_email_part: "lang email_part = {u. u \<noteq> [] \<and> (\<forall>c \<in> set u. email_char c)}"
  by (simp add: email_part_def lang_plus_cls cls_match_def email_char_def)

text \<open>C4: \<^verbatim>\<open>emailRegex.test(s)\<close> holds exactly when \<open>s\<close> has the shape the
  specification gives: a non-empty local part, \<^verbatim>\<open>@\<close>, a non-empty part, a dot and a
  non-empty last part, none of them containing whitespace or \<^verbatim>\<open>@\<close> (dots may occur in
  the parts after the \<^verbatim>\<open>@\<close>).\<close>

theorem email_shape:
  "rx_matches email_rx s \<longleftrightarrow>
   (\<exists>u v w. s = u @ CHR ''@'' # v @ CHR ''.'' # w \<and> u \<noteq> [] \<and> v \<noteq> [] \<and> w \<noteq> [] \<and>
      (\<forall>c \<in> set (u @ v @ w). email_char c))"
  unfolding rx_matches_lang email_rx_def lang.simps lang_email_part conc_single_iff
  unfolding conc_iff by auto blast+
theorem email_shape_witness:
  "\<exists>u v w. ''a@b.co'' = u @ CHR ''@'' # v @ CHR ''.'' # w \<and> u \<noteq> [] \<and> v \<noteq> [] \<and> w \<noteq> [] \<and>
      (\<forall>c \<in> set (u @ v @ w). email_char c)"
proof -
  have "rx_matches email_rx ''a@b.co''" by code_simp
  then show ?thesis by (simp only: email_shape)
qed

end
