(* ===== verification/Dates.thy ===== *)
theory Dates
  imports Prelude
begin

text \<open>
  The JavaScript \<^verbatim>\<open>Date\<close> operations the script uses: \<^verbatim>\<open>new Date()\<close> (the
  clock), \<^verbatim>\<open>new Date(s)\<close> on the value of a date input (line 104),
  \<^verbatim>\<open>setHours(0, 0, 0, 0)\<close> (line 106), the comparison \<^verbatim>\<open><\<close> of two dates
  (line 108), \<^verbatim>\<open>setDate(getDate() + 1)\<close> and \<^verbatim>\<open>toISOString()\<close>
  (lines 313 to 316). A date is its time value in milliseconds since the epoch, or
  \<open>None\<close> for the invalid date (\<^verbatim>\<open>NaN\<close>). The clock is a record of the current
  time value and the local time zone's offset from UTC; the offset is fixed (no change of
  daylight saving time during the computation). Civil dates use the proleptic Gregorian
  calendar of ECMAScript's \<^verbatim>\<open>MakeDay\<close>, computed by the usual era-based formulas.
\<close>

record clock =
  now_ms :: int
  tz_offset_ms :: int   \<comment> \<open>local time minus UTC, in milliseconds\<close>

definition ms_per_day :: int where
  "ms_per_day = 86400000"

subsection \<open>Civil dates\<close>

definition is_leap :: "int \<Rightarrow> bool" where
  "is_leap y \<longleftrightarrow> (y mod 4 = 0 \<and> y mod 100 \<noteq> 0) \<or> y mod 400 = 0"

definition days_in_month :: "int \<Rightarrow> int \<Rightarrow> int" where
  "days_in_month y m =
     (if m = 2 then (if is_leap y then 29 else 28)
      else if m \<in> {4, 6, 9, 11} then 30 else 31)"

text \<open>Day number (days since 1970-01-01) of a civil date.\<close>

definition days_from_civil :: "int \<Rightarrow> int \<Rightarrow> int \<Rightarrow> int" where
  "days_from_civil y m d =
     (let y' = (if m \<le> 2 then y - 1 else y);
          era = y' div 400;
          yoe = y' - era * 400;
          doy = (153 * (if 2 < m then m - 3 else m + 9) + 2) div 5 + d - 1;
          doe = yoe * 365 + yoe div 4 - yoe div 100 + doy
      in era * 146097 + doe - 719468)"

text \<open>The civil date of a day number.\<close>

definition civil_from_days :: "int \<Rightarrow> int \<times> int \<times> int" where
  "civil_from_days z =
     (let z' = z + 719468;
          era = z' div 146097;
          doe = z' - era * 146097;
          yoe = (doe - doe div 1460 + doe div 36524 - doe div 146096) div 365;
          doy = doe - (365 * yoe + yoe div 4 - yoe div 100);
          mp = (5 * doy + 2) div 153;
          d = doy - (153 * mp + 2) div 5 + 1;
          m = (if mp < 10 then mp + 3 else mp - 9)
      in (if m \<le> 2 then yoe + era * 400 + 1 else yoe + era * 400, m, d))"

subsection \<open>Parsing a date input's value\<close>

definition digit_val :: "char \<Rightarrow> int" where
  "digit_val c = int (of_char c) - 48"

definition digits_val :: "string \<Rightarrow> int" where
  "digits_val cs = foldl (\<lambda>acc c. 10 * acc + digit_val c) 0 cs"

text \<open>\<^verbatim>\<open>new Date(s)\<close> for the date-only form \<^verbatim>\<open>YYYY-MM-DD\<close> of the
  ECMAScript date time string format: the value is UTC midnight of that day; a string
  of that shape with a month or day out of range is the invalid date. A date input
  (\<^verbatim>\<open>type="date"\<close>) submits this form or the empty string. Strings of other
  shapes are read as the invalid date here (engines may fall back to their own
  formats; not modelled).\<close>

definition parse_iso_date :: "string \<Rightarrow> int option" where
  "parse_iso_date s =
     (if length s = 10 \<and> s ! 4 = CHR ''-'' \<and> s ! 7 = CHR ''-'' \<and>
         (\<forall>i \<in> {0, 1, 2, 3, 5, 6, 8, 9}. js_digit (s ! i))
      then (let y = digits_val (take 4 s);
                m = digits_val (take 2 (drop 5 s));
                d = digits_val (drop 8 s)
            in if 1 \<le> m \<and> m \<le> 12 \<and> 1 \<le> d \<and> d \<le> days_in_month y m
               then Some (days_from_civil y m d * ms_per_day) else None)
      else None)"

subsection \<open>Clock operations\<close>

text \<open>\<^verbatim>\<open>today = new Date(); today.setHours(0, 0, 0, 0)\<close>: local midnight of the
  current local day, as a time value.\<close>

definition local_midnight :: "clock \<Rightarrow> int" where
  "local_midnight clk =
     ((now_ms clk + tz_offset_ms clk) div ms_per_day) * ms_per_day - tz_offset_ms clk"

text \<open>The relational comparison \<^verbatim>\<open>a < b\<close> of two dates: false whenever one is
  \<^verbatim>\<open>NaN\<close>.\<close>

fun js_date_lt :: "int option \<Rightarrow> int option \<Rightarrow> bool" where
  "js_date_lt (Some a) (Some b) = (a < b)"
| "js_date_lt _ _ = False"

text \<open>Lines 104 to 108: the selected date lies before today.\<close>

definition date_before_today :: "clock \<Rightarrow> string \<Rightarrow> bool" where
  "date_before_today clk s = js_date_lt (parse_iso_date s) (Some (local_midnight clk))"

subsection \<open>Formatting\<close>

definition two_digits :: "int \<Rightarrow> string" where
  "two_digits n = [char_of (nat (48 + n div 10)), char_of (nat (48 + n mod 10))]"

definition four_digits :: "int \<Rightarrow> string" where
  "four_digits n = two_digits (n div 100) @ two_digits (n mod 100)"

text \<open>\<^verbatim>\<open>toISOString().split('T')[0]\<close>: the UTC date of a time value; years
  outside 0 to 9999 use the six-digit signed form.\<close>

definition iso_date_string :: "int \<Rightarrow> string" where
  "iso_date_string t =
     (case civil_from_days (t div ms_per_day) of (y, m, d) \<Rightarrow>
        (if 0 \<le> y \<and> y \<le> 9999 then four_digits y
         else (if y < 0 then CHR ''-'' else CHR ''+'') # two_digits (\<bar>y\<bar> div 10000)
              @ four_digits (\<bar>y\<bar> mod 10000))
        @ CHR ''-'' # two_digits m @ CHR ''-'' # two_digits d)"

text \<open>Lines 310 to 318: \<^verbatim>\<open>tomorrow = new Date(today);
  tomorrow.setDate(tomorrow.getDate() + 1)\<close> moves one local day on, which under a
  fixed offset is 24 hours; the \<^verbatim>\<open>min\<close> attribute is its UTC date.\<close>

definition min_date_attr :: "clock \<Rightarrow> string" where
  "min_date_attr clk = iso_date_string (now_ms clk + ms_per_day)"

subsection \<open>Properties\<close>

lemma parse_iso_date_day: "parse_iso_date s = Some t \<Longrightarrow> \<exists>D. t = D * ms_per_day"
  by (auto simp: parse_iso_date_def Let_def split: if_splits)

lemma day_compare:
  fixes D N off :: int
  assumes "\<bar>off\<bar> < ms_per_day"
  shows "D * ms_per_day < N * ms_per_day - off \<longleftrightarrow> D < N \<or> (D = N \<and> off < 0)"
  using assms unfolding ms_per_day_def by arith

subsection \<open>Calendar arithmetic\<close>

text \<open>The era-based conversion \<open>civil_from_days\<close>: within an era of 400 years
  (146097 days) the day of the era \<open>doe\<close> is written as
  \<open>36524 p + 1461 q + 365 s + k\<close> (centuries, four-year cycles, years, day of
  year); the divisions of the conversion then yield the year of the era
  \<open>100 p + 4 q + s\<close> and the day of the year \<open>k\<close>, and day 365 occurs only in a
  leap year. From the day of the year, the month and day are in range and
  \<open>days_from_civil\<close> undoes the conversion.\<close>

lemma era_decomp:
  fixes doe :: int
  assumes "0 \<le> doe" "doe \<le> 146095"
  obtains p q s k where "doe = 36524 * p + 1461 * q + 365 * s + k"
    "0 \<le> p" "p \<le> 3" "0 \<le> q" "q \<le> 24" "0 \<le> s" "s \<le> 3" "0 \<le> k" "k \<le> 365"
    "k = 365 \<Longrightarrow> s = 3 \<and> q \<le> 23"
proof -
  define p where "p = doe div 36524"
  define r where "r = doe mod 36524"
  define q where "q = r div 1461"
  define r2 where "r2 = r mod 1461"
  have d1: "doe = 36524 * p + r" "0 \<le> r" "r < 36524" by (simp_all add: p_def r_def)
  have d2: "r = 1461 * q + r2" "0 \<le> r2" "r2 < 1461" by (simp_all add: q_def r2_def)
  define t where "t = r2 div 365"
  define u where "u = r2 mod 365"
  have m: "r2 = 365 * t + u" "0 \<le> u" "u < 365"
    by (simp_all add: t_def u_def)
  have d3: "365 * t \<le> r2" "r2 < 365 * t + 365" "0 \<le> t"
    using m d2(2) by linarith+
  define s where "s = min 3 t"
  define k where "k = r2 - 365 * s"
  have "0 \<le> p" "p \<le> 3" "0 \<le> q" "q \<le> 24" using assms d1 d2 by linarith+
  then show ?thesis
  proof (intro that)
    show "doe = 36524 * p + 1461 * q + 365 * s + k" using d1 d2 by (simp add: k_def)
    show "0 \<le> s" "s \<le> 3" using d3 by (simp_all add: s_def)
    show "0 \<le> k" "k \<le> 365" using d2 d3 by (auto simp: k_def s_def min_def)
    show "k = 365 \<Longrightarrow> s = 3 \<and> q \<le> 23" using d1 d2 d3 by (auto simp: k_def s_def min_def split: if_splits)
  qed simp_all
qed

lemma yoe_doy_core:
  fixes doe :: int
  assumes "0 \<le> doe" "doe \<le> 146095"
  defines "Y \<equiv> (doe - doe div 1460 + doe div 36524 - doe div 146096) div 365"
  shows "0 \<le> Y \<and> Y \<le> 399 \<and> 0 \<le> doe - (365 * Y + Y div 4 - Y div 100) \<and>
         doe - (365 * Y + Y div 4 - Y div 100) \<le> 365 \<and>
         (doe - (365 * Y + Y div 4 - Y div 100) = 365 \<longrightarrow> is_leap (Y + 1))"
proof -
  obtain p q s k where dec: "doe = 36524 * p + 1461 * q + 365 * s + k"
    and b: "0 \<le> p" "p \<le> 3" "0 \<le> q" "q \<le> 24" "0 \<le> s" "s \<le> 3" "0 \<le> k" "k \<le> 365"
    and k365: "k = 365 \<Longrightarrow> s = 3 \<and> q \<le> 23"
    using era_decomp [OF assms(1,2)] by blast
  define t :: int where "t = (if 1460 \<le> 24 * p + q + 365 * s + k then 1 else 0)"
  have c: "doe div 146096 = 0" using assms by simp
  have p: "doe div 36524 = p"
    using dec b k365 by (intro int_div_eqI) (linarith, linarith, fastforce)
  have a: "doe div 1460 = 25 * p + q + t"
    using dec b by (intro int_div_eqI) (auto simp: t_def)
  have kk: "k < 365 \<or> (k = 365 \<and> s = 3)" using b k365 by fastforce
  have y: "Y = 100 * p + 4 * q + s"
    unfolding Y_def c p a using dec b kk
    by (intro int_div_eqI) (auto simp: t_def split: if_splits)
  have y4: "Y div 4 = 25 * p + q" and y100: "Y div 100 = p"
    unfolding y using b by (intro int_div_eqI; simp)+
  have doy: "doe - (365 * Y + Y div 4 - Y div 100) = k"
    unfolding y4 y100 by (simp add: dec y)
  have leap: "k = 365 \<Longrightarrow> is_leap (Y + 1)"
  proof -
    assume "k = 365"
    with k365 have "s = 3" "q \<le> 23" by simp_all
    then have e: "Y + 1 = 4 * q + 4 + p * 100" by (simp add: y)
    have "(Y + 1) mod 100 = 4 * q + 4"
      unfolding e mod_mult_self2 using b \<open>q \<le> 23\<close> by (simp add: mod_pos_pos_trivial)
    moreover have "(Y + 1) mod 4 = 0" unfolding e by presburger
    ultimately show ?thesis using b by (simp add: is_leap_def)
  qed
  show ?thesis using b doy leap by (simp add: y)
qed

lemma month_of_doy:
  fixes doy y :: int
  assumes "0 \<le> doy" "doy \<le> 365" "doy = 365 \<longrightarrow> is_leap y"
  defines "mp \<equiv> (5 * doy + 2) div 153"
  defines "d \<equiv> doy - (153 * mp + 2) div 5 + 1"
  defines "m \<equiv> (if mp < 10 then mp + 3 else mp - 9)"
  shows "0 \<le> mp \<and> mp \<le> 11 \<and> 1 \<le> m \<and> m \<le> 12 \<and> 1 \<le> d \<and> d \<le> days_in_month y m"
proof -
  have lo: "153 * mp \<le> 5 * doy + 2" and hi: "5 * doy + 2 < 153 * mp + 153"
    unfolding mp_def using div_bounds [of 153] by simp_all
  have "0 \<le> mp" "mp \<le> 11" using lo hi assms(1,2) by linarith+
  then have "mp = 0 \<or> mp = 1 \<or> mp = 2 \<or> mp = 3 \<or> mp = 4 \<or> mp = 5 \<or> mp = 6 \<or>
        mp = 7 \<or> mp = 8 \<or> mp = 9 \<or> mp = 10 \<or> mp = 11"
    by presburger
  then show ?thesis
    using lo hi assms(1,2,3) unfolding d_def m_def
    by (elim disjE) (simp_all add: days_in_month_def, fastforce)
qed

lemma yoe_doy:
  fixes doe :: int
  assumes "0 \<le> doe" "doe \<le> 146096"
  defines "Y \<equiv> (doe - doe div 1460 + doe div 36524 - doe div 146096) div 365"
  shows "0 \<le> Y \<and> Y \<le> 399 \<and> 0 \<le> doe - (365 * Y + Y div 4 - Y div 100) \<and>
         doe - (365 * Y + Y div 4 - Y div 100) \<le> 365 \<and>
         (doe - (365 * Y + Y div 4 - Y div 100) = 365 \<longrightarrow> is_leap (Y + 1))"
proof (cases "doe = 146096")
  case True
  then show ?thesis by (simp add: Y_def is_leap_def)
next
  case False
  then show ?thesis using yoe_doy_core [of doe] assms by simp
qed

lemma is_leap_plus_400 [simp]: "is_leap (x + e * 400) = is_leap x"
proof -
  have "(x + e * 400) mod 4 = x mod 4"
    using mod_mult_self1 [of x "e * 100" 4] by (simp add: mult.assoc)
  moreover have "(x + e * 400) mod 100 = x mod 100"
    using mod_mult_self1 [of x "e * 4" 100] by (simp add: mult.assoc)
  moreover have "(x + e * 400) mod 400 = x mod 400"
    by (rule mod_mult_self1)
  ultimately show ?thesis by (simp add: is_leap_def)
qed

lemma civil_from_days_parts:
  obtains era Y doy where
    "z + 719468 = era * 146097 + (365 * Y + Y div 4 - Y div 100 + doy)"
    "0 \<le> Y" "Y \<le> 399" "0 \<le> doy" "doy \<le> 365" "doy = 365 \<longrightarrow> is_leap (Y + 1)"
    "civil_from_days z =
       (let mp = (5 * doy + 2) div 153;
            d = doy - (153 * mp + 2) div 5 + 1;
            m = (if mp < 10 then mp + 3 else mp - 9)
        in (if m \<le> 2 then Y + era * 400 + 1 else Y + era * 400, m, d))"
proof -
  define era where "era = (z + 719468) div 146097"
  define doe where "doe = z + 719468 - era * 146097"
  have "doe = (z + 719468) mod 146097" by (simp add: doe_def era_def minus_div_mult_eq_mod)
  then have "0 \<le> doe" "doe \<le> 146096" by simp_all
  define Y where "Y = (doe - doe div 1460 + doe div 36524 - doe div 146096) div 365"
  define doy where "doy = doe - (365 * Y + Y div 4 - Y div 100)"
  have "0 \<le> Y \<and> Y \<le> 399 \<and> 0 \<le> doy \<and> doy \<le> 365 \<and> (doy = 365 \<longrightarrow> is_leap (Y + 1))"
    unfolding doy_def Y_def using yoe_doy [OF \<open>0 \<le> doe\<close> \<open>doe \<le> 146096\<close>] by simp
  moreover have "civil_from_days z =
       (let mp = (5 * doy + 2) div 153;
            d = doy - (153 * mp + 2) div 5 + 1;
            m = (if mp < 10 then mp + 3 else mp - 9)
        in (if m \<le> 2 then Y + era * 400 + 1 else Y + era * 400, m, d))"
    unfolding civil_from_days_def Let_def era_def [symmetric] doe_def [symmetric]
      Y_def [symmetric] doy_def [symmetric] ..
  moreover have "z + 719468 = era * 146097 + (365 * Y + Y div 4 - Y div 100 + doy)"
    by (simp add: doy_def doe_def)
  ultimately show ?thesis using that by blast
qed

lemma civil_from_days_bounds:
  assumes "civil_from_days z = (y, m, d)"
  shows "1 \<le> m \<and> m \<le> 12 \<and> 1 \<le> d \<and> d \<le> days_in_month y m"
proof -
  obtain era Y doy where
    b: "0 \<le> Y" "Y \<le> 399" "0 \<le> doy" "doy \<le> 365" "doy = 365 \<longrightarrow> is_leap (Y + 1)"
    and c: "civil_from_days z =
       (let mp = (5 * doy + 2) div 153;
            d = doy - (153 * mp + 2) div 5 + 1;
            m = (if mp < 10 then mp + 3 else mp - 9)
        in (if m \<le> 2 then Y + era * 400 + 1 else Y + era * 400, m, d))"
    by (rule civil_from_days_parts)
  define mp where "mp = (5 * doy + 2) div 153"
  define M where "M = (if mp < 10 then mp + 3 else mp - 9)"
  define D where "D = doy - (153 * mp + 2) div 5 + 1"
  have "(y, m, d) = (if M \<le> 2 then Y + era * 400 + 1 else Y + era * 400, M, D)"
    using c unfolding assms Let_def mp_def [symmetric] M_def [symmetric] D_def [symmetric] .
  then have y0: "y = (if M \<le> 2 then Y + era * 400 + 1 else Y + era * 400)"
    and mM: "m = M" and d: "d = doy - (153 * mp + 2) div 5 + 1"
    unfolding prod.inject D_def by simp_all
  have y: "y = (if m \<le> 2 then Y + era * 400 + 1 else Y + era * 400)"
    and m: "m = (if mp < 10 then mp + 3 else mp - 9)"
    using y0 mM M_def by simp_all
  have leap: "doy = 365 \<longrightarrow> is_leap y"
  proof
    assume "doy = 365"
    then have "mp = 11" by (simp add: mp_def)
    with y m have "y = Y + 1 + era * 400" by simp
    with b(5) \<open>doy = 365\<close> show "is_leap y" by simp
  qed
  show ?thesis
    using month_of_doy [OF b(3,4) leap] unfolding mp_def [symmetric] m [symmetric] d [symmetric]
    by simp
qed

lemma days_from_civil_civil_from_days:
  assumes "civil_from_days z = (y, m, d)"
  shows "days_from_civil y m d = z"
proof -
  obtain era Y doy where
    e: "z + 719468 = era * 146097 + (365 * Y + Y div 4 - Y div 100 + doy)"
    and b: "0 \<le> Y" "Y \<le> 399" "0 \<le> doy" "doy \<le> 365" "doy = 365 \<longrightarrow> is_leap (Y + 1)"
    and c: "civil_from_days z =
       (let mp = (5 * doy + 2) div 153;
            d = doy - (153 * mp + 2) div 5 + 1;
            m = (if mp < 10 then mp + 3 else mp - 9)
        in (if m \<le> 2 then Y + era * 400 + 1 else Y + era * 400, m, d))"
    by (rule civil_from_days_parts)
  define mp where "mp = (5 * doy + 2) div 153"
  define M where "M = (if mp < 10 then mp + 3 else mp - 9)"
  define D where "D = doy - (153 * mp + 2) div 5 + 1"
  have "(y, m, d) = (if M \<le> 2 then Y + era * 400 + 1 else Y + era * 400, M, D)"
    using c unfolding assms Let_def mp_def [symmetric] M_def [symmetric] D_def [symmetric] .
  then have y0: "y = (if M \<le> 2 then Y + era * 400 + 1 else Y + era * 400)"
    and mM: "m = M" and d: "d = doy - (153 * mp + 2) div 5 + 1"
    unfolding prod.inject D_def by simp_all
  have y: "y = (if m \<le> 2 then Y + era * 400 + 1 else Y + era * 400)"
    and m: "m = (if mp < 10 then mp + 3 else mp - 9)"
    using y0 mM M_def by simp_all
  have "0 \<le> mp" "mp \<le> 11"
    using month_of_doy [OF b(3,4), of "Y + 1"] b(5) unfolding mp_def by simp_all
  then have mp: "(if 2 < m then m - 3 else m + 9) = mp" and y': "(if m \<le> 2 then y - 1 else y) = era * 400 + Y"
    using m y by auto
  have "(era * 400 + Y) div 400 = era" using b(1,2) by (intro int_div_eqI) simp_all
  then show ?thesis
    unfolding days_from_civil_def Let_def y' mp using e by (simp add: d)
qed

lemma digit_char:
  assumes "0 \<le> k" "k \<le> 9"
  shows "js_digit (char_of (nat (48 + k))) \<and> digit_val (char_of (nat (48 + k))) = k"
proof -
  have "of_char (char_of (nat (48 + k)) :: char) = nat (48 + k)"
    using assms by (simp add: of_char_of)
  moreover have "48 \<le> nat (48 + k)" "nat (48 + k) \<le> 57" using assms by arith+
  ultimately show ?thesis using assms by (simp add: js_digit_def digit_val_def)
qed

lemma two_digits_parts:
  assumes "0 \<le> n" "n \<le> 99"
  obtains a b where "two_digits n = [a, b]" "js_digit a" "js_digit b"
    "10 * digit_val a + digit_val b = n"
proof -
  have "0 \<le> n div 10" "n div 10 \<le> 9" "0 \<le> n mod 10" "n mod 10 \<le> 9" using assms by simp_all
  then show ?thesis
    using that digit_char [of "n div 10"] digit_char [of "n mod 10"]
    by (simp add: two_digits_def)
qed

lemma four_digits_parts:
  assumes "0 \<le> y" "y \<le> 9999"
  obtains a b c e where "four_digits y = [a, b, c, e]" "js_digit a" "js_digit b" "js_digit c" "js_digit e"
    "digits_val [a, b, c, e] = y"
proof -
  have "0 \<le> y div 100" "y div 100 \<le> 99" "0 \<le> y mod 100" "y mod 100 \<le> 99" using assms by simp_all
  then obtain a b c e where "two_digits (y div 100) = [a, b]" "js_digit a" "js_digit b"
    "10 * digit_val a + digit_val b = y div 100"
    "two_digits (y mod 100) = [c, e]" "js_digit c" "js_digit e" "10 * digit_val c + digit_val e = y mod 100"
    using two_digits_parts by metis
  moreover have "digits_val [a, b, c, e] = 100 * (10 * digit_val a + digit_val b) + (10 * digit_val c + digit_val e)"
    by (simp add: digits_val_def algebra_simps)
  ultimately show ?thesis using that by (simp add: four_digits_def)
qed

lemma parse_iso_date_print:
  assumes "0 \<le> y" "y \<le> 9999" "1 \<le> m" "m \<le> 12" "1 \<le> d" "d \<le> days_in_month y m"
  shows "parse_iso_date (four_digits y @ CHR ''-'' # two_digits m @ CHR ''-'' # two_digits d) =
         Some (days_from_civil y m d * ms_per_day)"
proof -
  have "d \<le> 31" using assms(6) by (simp add: days_in_month_def split: if_splits)
  obtain a b c e where y: "four_digits y = [a, b, c, e]" "js_digit a" "js_digit b" "js_digit c" "js_digit e"
    "digits_val [a, b, c, e] = y"
    using four_digits_parts assms(1,2) by metis
  obtain m1 m2 where m: "two_digits m = [m1, m2]" "js_digit m1" "js_digit m2" "10 * digit_val m1 + digit_val m2 = m"
    using two_digits_parts [of m] assms(3,4) by auto
  obtain d1 d2 where d: "two_digits d = [d1, d2]" "js_digit d1" "js_digit d2" "10 * digit_val d1 + digit_val d2 = d"
    using two_digits_parts [of d] assms(5) \<open>d \<le> 31\<close> by auto
  have dv: "digits_val [m1, m2] = m" "digits_val [d1, d2] = d"
    using m(4) d(4) by (simp_all add: digits_val_def)
  show ?thesis
    unfolding y(1) m(1) d(1) parse_iso_date_def
    using y(2-6) m(2,3) d(2,3) dv assms by (simp add: numeral_eq_Suc)
qed

lemma length_two_digits [simp]: "length (two_digits n) = 2"
  by (simp add: two_digits_def)

lemma length_four_digits [simp]: "length (four_digits n) = 4"
  by (simp add: four_digits_def)

text \<open>What \<^verbatim>\<open>new Date(s)\<close> makes of the date string \<^verbatim>\<open>toISOString\<close> prints: the
  same day for the years 0 to 9999, the invalid date for the six-digit years.\<close>

lemma parse_iso_date_iso_date_string:
  "parse_iso_date (iso_date_string t) =
     (if 0 \<le> fst (civil_from_days (t div ms_per_day)) \<and> fst (civil_from_days (t div ms_per_day)) \<le> 9999
      then Some (t div ms_per_day * ms_per_day) else None)"
proof -
  obtain y m d where c: "civil_from_days (t div ms_per_day) = (y, m, d)"
    by (metis prod_cases3)
  show ?thesis
  proof (cases "0 \<le> y \<and> y \<le> 9999")
    case True
    then have "iso_date_string t = four_digits y @ CHR ''-'' # two_digits m @ CHR ''-'' # two_digits d"
      using c by (simp add: iso_date_string_def)
    then show ?thesis
      using True c parse_iso_date_print [of y m d] civil_from_days_bounds [OF c]
        days_from_civil_civil_from_days [OF c]
      by simp
  next
    case False
    then have "length (iso_date_string t) = 13"
      using c by (simp add: iso_date_string_def)
    then show ?thesis using False c by (simp add: parse_iso_date_def)
  qed
qed

lemma local_midnight_le_now: "local_midnight clk \<le> now_ms clk"
  using div_bounds(1) [of ms_per_day "now_ms clk + tz_offset_ms clk"]
  by (simp add: local_midnight_def ms_per_day_def mult.commute)

lemma min_date_attr_parse:
  assumes "parse_iso_date (min_date_attr clk) = Some m"
  shows "m = (now_ms clk div ms_per_day + 1) * ms_per_day"
proof -
  have "(now_ms clk + ms_per_day) div ms_per_day = now_ms clk div ms_per_day + 1"
    by (simp add: ms_per_day_def)
  then show ?thesis
    using assms by (simp add: min_date_attr_def parse_iso_date_iso_date_string split: if_splits)
qed

text \<open>C5: the past-date check of lines 104 to 108 rejects a well-formed date
  exactly when its day lies before the current local day, or is the current local day
  while the local zone is behind UTC (\<^verbatim>\<open>new Date("YYYY-MM-DD")\<close> is UTC
  midnight, \<^verbatim>\<open>today\<close> is local midnight). Offsets are less than a day.\<close>

theorem date_before_today_iff:
  assumes "parse_iso_date s = Some (D * ms_per_day)" and "\<bar>tz_offset_ms clk\<bar> < ms_per_day"
  shows "date_before_today clk s \<longleftrightarrow>
    D < (now_ms clk + tz_offset_ms clk) div ms_per_day \<or>
    (D = (now_ms clk + tz_offset_ms clk) div ms_per_day \<and> tz_offset_ms clk < 0)"
  using assms day_compare by (simp add: date_before_today_def local_midnight_def)

text \<open>At noon on 2024-06-15 in a zone four hours behind UTC, the date input's value
  \<^verbatim>\<open>2024-06-15\<close> counts as before today: today's date is refused there.\<close>

theorem date_before_today_iff_witness:
  "date_before_today \<lparr>now_ms = 1718467200000, tz_offset_ms = -14400000\<rparr> ''2024-06-15''"
proof -
  have p: "parse_iso_date ''2024-06-15'' = Some (19889 * ms_per_day)" by code_simp
  have o: "\<bar>tz_offset_ms \<lparr>now_ms = 1718467200000, tz_offset_ms = -14400000\<rparr>\<bar> < ms_per_day"
    by (simp add: ms_per_day_def)
  show ?thesis using date_before_today_iff [OF p o] by (simp add: ms_per_day_def)
qed

text \<open>C24: the \<^verbatim>\<open>min\<close> attribute of the date input (lines 312 to 317) names the
  local date of tomorrow exactly when the UTC date of now is the local date of now:
  in a zone behind UTC it skips tomorrow during the evening, in a zone ahead of UTC it
  allows today during the morning.\<close>

theorem min_date_attr_local_tomorrow_iff:
  assumes "parse_iso_date (min_date_attr clk) = Some m"
  shows "m = ((now_ms clk + tz_offset_ms clk) div ms_per_day + 1) * ms_per_day \<longleftrightarrow>
         now_ms clk div ms_per_day = (now_ms clk + tz_offset_ms clk) div ms_per_day"
  using min_date_attr_parse [OF assms] by (simp add: ms_per_day_def)

theorem min_date_attr_local_tomorrow_iff_witness:
  "parse_iso_date (min_date_attr \<lparr>now_ms = 1718499600000, tz_offset_ms = -18000000\<rparr>) =
     Some (19891 * ms_per_day) \<and>
   19891 * ms_per_day \<noteq> ((1718499600000 + -18000000) div ms_per_day + 1) * ms_per_day"
proof -
  have p: "parse_iso_date (min_date_attr \<lparr>now_ms = 1718499600000, tz_offset_ms = -18000000\<rparr>) =
     Some (19891 * ms_per_day)"
    unfolding min_date_attr_def by code_simp
  have "(1718499600000::int) div ms_per_day \<noteq> (1718499600000 + -18000000) div ms_per_day"
    by (simp add: ms_per_day_def)
  then show ?thesis using min_date_attr_local_tomorrow_iff [OF p] p by simp
qed

text \<open>C11: every date the date input's \<^verbatim>\<open>min\<close> attribute admits passes the
  past-date check of lines 104 to 108: the attribute's day starts after now, and today's
  local midnight is never later than now.\<close>

theorem min_date_passes_check:
  assumes "parse_iso_date (min_date_attr clk) = Some m" and "parse_iso_date s = Some t"
    and "m \<le> t"
  shows "\<not> date_before_today clk s"
proof -
  have "now_ms clk < m"
    using min_date_attr_parse [OF assms(1)] div_bounds(2) [of ms_per_day "now_ms clk"]
    by (simp add: ms_per_day_def algebra_simps)
  then show ?thesis
    using assms(2,3) local_midnight_le_now [of clk] by (simp add: date_before_today_def)
qed

theorem min_date_passes_check_witness:
  "\<not> date_before_today \<lparr>now_ms = 1718499600000, tz_offset_ms = -18000000\<rparr> ''2024-06-17''"
proof -
  have p: "parse_iso_date (min_date_attr \<lparr>now_ms = 1718499600000, tz_offset_ms = -18000000\<rparr>) =
     Some (19891 * ms_per_day)"
    unfolding min_date_attr_def by code_simp
  have q: "parse_iso_date ''2024-06-17'' = Some (19891 * ms_per_day)" by code_simp
  show ?thesis using min_date_passes_check [OF p q] by simp
qed

text \<open>C30: the date string that \<^verbatim>\<open>toISOString().split('T')[0]\<close> prints for a time
  value in the years 0 to 9999 (line 316) is read back by \<^verbatim>\<open>new Date(s)\<close> (line 104)
  as UTC midnight of the same day.\<close>

theorem iso_date_string_roundtrip:
  assumes "0 \<le> fst (civil_from_days (t div ms_per_day))"
    and "fst (civil_from_days (t div ms_per_day)) \<le> 9999"
  shows "parse_iso_date (iso_date_string t) = Some (t div ms_per_day * ms_per_day)"
  using assms by (simp add: parse_iso_date_iso_date_string)

theorem iso_date_string_roundtrip_witness:
  "0 \<le> fst (civil_from_days (1718499600000 div ms_per_day)) \<and>
   fst (civil_from_days (1718499600000 div ms_per_day)) \<le> 9999 \<and>
   parse_iso_date (iso_date_string 1718499600000) = Some (19890 * ms_per_day)"
proof -
  have "fst (civil_from_days (1718499600000 div ms_per_day)) = 2024"
    by code_simp
  moreover have "1718499600000 div ms_per_day = 19890" by (simp add: ms_per_day_def)
  ultimately show ?thesis using iso_date_string_roundtrip [of 1718499600000] by simp
qed

end
