(* ===== verification/Validator.thy ===== *)
theory Validator
  imports Regex Dates
begin

text \<open>
  The validation functions of \<^verbatim>\<open>src/script.js\<close>: \<^verbatim>\<open>validateAppointmentForm\<close>
  (lines 81 to 120), \<^verbatim>\<open>validateContactForm\<close> (lines 122 to 140),
  \<^verbatim>\<open>isValidEmail\<close> (lines 143 to 146) and \<^verbatim>\<open>isValidPhone\<close> (lines 148 to
  152). Each JavaScript validator shows an error popup and returns \<^verbatim>\<open>false\<close> at
  its first failing check; here the decision is the pure function
  \<open>validate_appointment\<close> / \<open>validate_contact\<close>, which returns the first failure
  as a \<open>verr\<close> (or \<open>None\<close> when all checks pass), and the text the popup shows is
  \<open>error_message\<close>. The popup itself is added in theory \<open>Forms\<close>, which composes
  the two as the script does.
\<close>

datatype form_kind = AppointmentForm | ContactForm

datatype verr = MissingField string | InvalidEmail | InvalidPhone | PastDate | ConsentRequired

subsection \<open>Helpers\<close>

definition isValidEmail :: "string \<Rightarrow> bool" where
  "isValidEmail email = rx_matches email_rx email"

text \<open>\<^verbatim>\<open>isValidPhone\<close> builds \<^verbatim>\<open>phoneRegex\<close> (\<open>phone_rx\<close>) but never uses it:
  only the number of digits counts.\<close>

definition isValidPhone :: "string \<Rightarrow> bool" where
  "isValidPhone phone = (10 \<le> length (strip_non_digits phone))"

text \<open>\<^verbatim>\<open>!data[field] || data[field].trim() === ''\<close>.\<close>

definition field_missing :: "form_data \<Rightarrow> string \<Rightarrow> bool" where
  "field_missing d f = (case d f of None \<Rightarrow> True | Some v \<Rightarrow> v = [] \<or> js_trim v = [])"

text \<open>The \<^verbatim>\<open>for (let field of requiredFields)\<close> loop: the first missing field.\<close>

fun first_missing :: "string list \<Rightarrow> form_data \<Rightarrow> string option" where
  "first_missing [] d = None"
| "first_missing (f # fs) d = (if field_missing d f then Some f else first_missing fs d)"

text \<open>A property read of the data object: an absent field is \<^verbatim>\<open>undefined\<close>,
  which \<^verbatim>\<open>RegExp.prototype.test\<close> reads as the string \<^verbatim>\<open>"undefined"\<close>.\<close>

definition js_str :: "string option \<Rightarrow> string" where
  "js_str v = (case v of None \<Rightarrow> ''undefined'' | Some s \<Rightarrow> s)"

text \<open>\<^verbatim>\<open>!data.consent\<close>: absent or the empty string.\<close>

definition js_falsy :: "string option \<Rightarrow> bool" where
  "js_falsy v = (case v of None \<Rightarrow> True | Some s \<Rightarrow> s = [])"

subsection \<open>Field names in messages\<close>

text \<open>\<^verbatim>\<open>field.replace(/([A-Z])/g, ' $1').toLowerCase()\<close>.\<close>

definition humanize_field :: "string \<Rightarrow> string" where
  "humanize_field f = js_to_lower (concat (map (\<lambda>c. if js_upper c then [CHR '' '', c] else [c]) f))"

text \<open>Line 127: \<^verbatim>\<open>field.replace('contact', '')\<close> first.\<close>

definition contact_field_label :: "string \<Rightarrow> string" where
  "contact_field_label f = humanize_field (replace_first ''contact'' '''' f)"

definition missing_message :: "string \<Rightarrow> string" where
  "missing_message label = ''Please fill in the '' @ label @ '' field.''"

fun error_message :: "form_kind \<Rightarrow> verr \<Rightarrow> string" where
  "error_message AppointmentForm (MissingField f) = missing_message (humanize_field f)"
| "error_message ContactForm (MissingField f) = missing_message (contact_field_label f)"
| "error_message _ InvalidEmail = ''Please enter a valid email address.''"
| "error_message _ InvalidPhone = ''Please enter a valid phone number.''"
| "error_message _ PastDate = ''Please select a future date for your appointment.''"
| "error_message _ ConsentRequired =
     ''Please consent to us contacting you about your appointment request.''"

subsection \<open>The validators\<close>

definition appointment_required :: "string list" where
  "appointment_required = [''firstName'', ''lastName'', ''email'', ''phone'',
     ''appointmentType'', ''preferredDate'', ''preferredTime'']"

definition contact_required :: "string list" where
  "contact_required = [''contactName'', ''contactEmail'', ''subject'', ''contactMessage'']"

definition validate_appointment :: "clock \<Rightarrow> form_data \<Rightarrow> verr option" where
  "validate_appointment clk d =
     (case first_missing appointment_required d of
        Some f \<Rightarrow> Some (MissingField f)
      | None \<Rightarrow>
          if \<not> isValidEmail (js_str (d ''email'')) then Some InvalidEmail
          else if \<not> isValidPhone (js_str (d ''phone'')) then Some InvalidPhone
          else if date_before_today clk (js_str (d ''preferredDate'')) then Some PastDate
          else if js_falsy (d ''consent'') then Some ConsentRequired
          else None)"

definition validate_contact :: "form_data \<Rightarrow> verr option" where
  "validate_contact d =
     (case first_missing contact_required d of
        Some f \<Rightarrow> Some (MissingField f)
      | None \<Rightarrow> if \<not> isValidEmail (js_str (d ''contactEmail'')) then Some InvalidEmail else None)"

subsection \<open>Properties\<close>

lemma first_missing_None_iff: "first_missing fs d = None \<longleftrightarrow> (\<forall>f \<in> set fs. \<not> field_missing d f)"
  by (induction fs) auto

lemma first_missing_Some_iff:
  "first_missing fs d = Some f \<longleftrightarrow>
     (\<exists>pre post. fs = pre @ f # post \<and> field_missing d f \<and> (\<forall>g \<in> set pre. \<not> field_missing d g))"
    (is "_ \<longleftrightarrow> ?P fs")
proof (induction fs)
  case Nil
  then show ?case by simp
next
  case (Cons g fs)
  show ?case
  proof (cases "field_missing d g")
    case True
    then show ?thesis by (auto simp: Cons_eq_append_conv)
  next
    case False
    have "?P (g # fs) \<longleftrightarrow> ?P fs"
    proof
      assume "?P (g # fs)"
      then obtain pre post where fs: "g # fs = pre @ f # post" and f: "field_missing d f"
        and pre: "\<forall>h \<in> set pre. \<not> field_missing d h" by blast
      with False obtain pre' where "pre = g # pre'" by (cases pre) auto
      with fs f pre show "?P fs" by auto
    next
      assume "?P fs"
      then obtain pre post where "fs = pre @ f # post" "field_missing d f"
        "\<forall>h \<in> set pre. \<not> field_missing d h" by blast
      with False show "?P (g # fs)" by (intro exI[of _ "g # pre"] exI[of _ post]) simp
    qed
    with False Cons.IH show ?thesis by simp
  qed
qed

lemma first_missing_SomeD:
  "first_missing fs d = Some f \<Longrightarrow> f \<in> set fs \<and> field_missing d f"
  by (induction fs) (auto split: if_splits)

lemma field_missing_iff:
  "field_missing d f \<longleftrightarrow> (case d f of None \<Rightarrow> True | Some v \<Rightarrow> \<forall>c \<in> set v. js_space c)"
  by (auto simp: field_missing_def split: option.splits)

text \<open>C2: when a required appointment field is missing, validation fails with
  \<open>MissingField g\<close> for the first missing field \<open>g\<close> in the declared order of
  \<^verbatim>\<open>requiredFields\<close>; no later check is reached.\<close>

theorem validate_appointment_first_missing:
  assumes "f \<in> set appointment_required" and "field_missing d f"
  shows "\<exists>g pre post. validate_appointment clk d = Some (MissingField g) \<and>
           appointment_required = pre @ g # post \<and> field_missing d g \<and>
           (\<forall>h \<in> set pre. \<not> field_missing d h)"
proof -
  from assms have "first_missing appointment_required d \<noteq> None"
    by (auto simp: first_missing_None_iff)
  then obtain g where g: "first_missing appointment_required d = Some g" by blast
  then have "\<exists>pre post. appointment_required = pre @ g # post \<and> field_missing d g \<and>
      (\<forall>h \<in> set pre. \<not> field_missing d h)"
    by (simp only: first_missing_Some_iff)
  with g show ?thesis by (simp add: validate_appointment_def)
qed

theorem validate_appointment_first_missing_witness:
  "\<exists>g pre post. validate_appointment \<lparr>now_ms = 0, tz_offset_ms = 0\<rparr>
       [''firstName'' \<mapsto> ''Ann'', ''phone'' \<mapsto> ''  ''] = Some (MissingField g) \<and>
     appointment_required = pre @ g # post \<and>
     field_missing [''firstName'' \<mapsto> ''Ann'', ''phone'' \<mapsto> ''  ''] g \<and>
     (\<forall>h \<in> set pre. \<not> field_missing [''firstName'' \<mapsto> ''Ann'', ''phone'' \<mapsto> ''  ''] h)"
  by (rule validate_appointment_first_missing [of "''phone''"])
    (simp_all add: appointment_required_def field_missing_def js_space_def)

text \<open>C1: the appointment form is accepted exactly when every required field is present
  and not blank, the email matches \<^verbatim>\<open>emailRegex\<close>, the phone has at least ten
  digits, the date is not before today and the consent box is ticked.\<close>

theorem validate_appointment_None_iff:
  "validate_appointment clk d = None \<longleftrightarrow>
     (\<forall>f \<in> set appointment_required. \<not> field_missing d f) \<and>
     isValidEmail (js_str (d ''email'')) \<and> isValidPhone (js_str (d ''phone'')) \<and>
     \<not> date_before_today clk (js_str (d ''preferredDate'')) \<and> \<not> js_falsy (d ''consent'')"
  by (cases "first_missing appointment_required d")
    (simp_all add: validate_appointment_def first_missing_None_iff [symmetric])

theorem validate_appointment_None_iff_witness:
  "validate_appointment \<lparr>now_ms = 1718409600000, tz_offset_ms = 0\<rparr>
     [''firstName'' \<mapsto> ''Ann'', ''lastName'' \<mapsto> ''Lee'', ''email'' \<mapsto> ''a@b.co'',
      ''phone'' \<mapsto> ''555-123-4567'', ''appointmentType'' \<mapsto> ''consultation'',
      ''preferredDate'' \<mapsto> ''2024-06-15'', ''preferredTime'' \<mapsto> ''morning'',
      ''consent'' \<mapsto> ''on''] = None"
proof -
  have "(\<forall>f \<in> set appointment_required. \<not> field_missing
     [''firstName'' \<mapsto> ''Ann'', ''lastName'' \<mapsto> ''Lee'', ''email'' \<mapsto> ''a@b.co'',
      ''phone'' \<mapsto> ''555-123-4567'', ''appointmentType'' \<mapsto> ''consultation'',
      ''preferredDate'' \<mapsto> ''2024-06-15'', ''preferredTime'' \<mapsto> ''morning'',
      ''consent'' \<mapsto> ''on''] f) \<and>
     isValidEmail ''a@b.co'' \<and> isValidPhone ''555-123-4567'' \<and>
     \<not> date_before_today \<lparr>now_ms = 1718409600000, tz_offset_ms = 0\<rparr> ''2024-06-15''"
    unfolding isValidEmail_def isValidPhone_def by code_simp
  then show ?thesis by (simp add: validate_appointment_None_iff js_str_def js_falsy_def)
qed

text \<open>C6: the past-date error is reported exactly when the required fields, the email
  and the phone pass and the selected date lies before today.\<close>

theorem validate_appointment_PastDate_iff:
  "validate_appointment clk d = Some PastDate \<longleftrightarrow>
     (\<forall>f \<in> set appointment_required. \<not> field_missing d f) \<and>
     isValidEmail (js_str (d ''email'')) \<and> isValidPhone (js_str (d ''phone'')) \<and>
     date_before_today clk (js_str (d ''preferredDate''))"
  by (cases "first_missing appointment_required d")
    (simp_all add: validate_appointment_def first_missing_None_iff [symmetric])

theorem validate_appointment_PastDate_iff_witness:
  "validate_appointment \<lparr>now_ms = 1718409600000, tz_offset_ms = 0\<rparr>
     [''firstName'' \<mapsto> ''Ann'', ''lastName'' \<mapsto> ''Lee'', ''email'' \<mapsto> ''a@b.co'',
      ''phone'' \<mapsto> ''555-123-4567'', ''appointmentType'' \<mapsto> ''consultation'',
      ''preferredDate'' \<mapsto> ''2024-06-14'', ''preferredTime'' \<mapsto> ''morning'',
      ''consent'' \<mapsto> ''on''] = Some PastDate"
proof -
  have "(\<forall>f \<in> set appointment_required. \<not> field_missing
     [''firstName'' \<mapsto> ''Ann'', ''lastName'' \<mapsto> ''Lee'', ''email'' \<mapsto> ''a@b.co'',
      ''phone'' \<mapsto> ''555-123-4567'', ''appointmentType'' \<mapsto> ''consultation'',
      ''preferredDate'' \<mapsto> ''2024-06-14'', ''preferredTime'' \<mapsto> ''morning'',
      ''consent'' \<mapsto> ''on''] f) \<and>
     isValidEmail ''a@b.co'' \<and> isValidPhone ''555-123-4567'' \<and>
     date_before_today \<lparr>now_ms = 1718409600000, tz_offset_ms = 0\<rparr> ''2024-06-14''"
    unfolding isValidEmail_def isValidPhone_def by code_simp
  then show ?thesis by (simp add: validate_appointment_PastDate_iff js_str_def)
qed

text \<open>C7: the contact form is accepted exactly when its four required fields are
  present and not blank and the contact email matches \<^verbatim>\<open>emailRegex\<close>.\<close>

theorem validate_contact_None_iff:
  "validate_contact d = None \<longleftrightarrow>
     (\<forall>f \<in> set contact_required. \<not> field_missing d f) \<and> isValidEmail (js_str (d ''contactEmail''))"
  by (cases "first_missing contact_required d")
    (simp_all add: validate_contact_def first_missing_None_iff [symmetric])

theorem validate_contact_None_iff_witness:
  "validate_contact [''contactName'' \<mapsto> ''Ann'', ''contactEmail'' \<mapsto> ''a@b.co'',
      ''subject'' \<mapsto> ''Hi'', ''contactMessage'' \<mapsto> ''Hello''] = None"
proof -
  have "(\<forall>f \<in> set contact_required. \<not> field_missing
      [''contactName'' \<mapsto> ''Ann'', ''contactEmail'' \<mapsto> ''a@b.co'',
       ''subject'' \<mapsto> ''Hi'', ''contactMessage'' \<mapsto> ''Hello''] f) \<and> isValidEmail ''a@b.co''"
    unfolding isValidEmail_def by code_simp
  then show ?thesis by (simp add: validate_contact_None_iff js_str_def)
qed

text \<open>C8: the contact validator reports an invalid email exactly when its four required
  fields are present and not blank and the value of \<^verbatim>\<open>contactEmail\<close> fails
  \<^verbatim>\<open>emailRegex\<close>.\<close>

theorem validate_contact_InvalidEmail_iff:
  "validate_contact d = Some InvalidEmail \<longleftrightarrow>
     (\<forall>f \<in> set contact_required. \<not> field_missing d f) \<and> \<not> isValidEmail (js_str (d ''contactEmail''))"
  by (cases "first_missing contact_required d")
    (simp_all add: validate_contact_def first_missing_None_iff [symmetric])

theorem validate_contact_InvalidEmail_iff_witness:
  "validate_contact [''contactName'' \<mapsto> ''Ann'', ''contactEmail'' \<mapsto> ''a@b'',
      ''subject'' \<mapsto> ''Hi'', ''contactMessage'' \<mapsto> ''Hello''] = Some InvalidEmail"
proof -
  have "(\<forall>f \<in> set contact_required. \<not> field_missing
      [''contactName'' \<mapsto> ''Ann'', ''contactEmail'' \<mapsto> ''a@b'',
       ''subject'' \<mapsto> ''Hi'', ''contactMessage'' \<mapsto> ''Hello''] f) \<and> \<not> isValidEmail ''a@b''"
    unfolding isValidEmail_def by code_simp
  then show ?thesis by (simp add: validate_contact_InvalidEmail_iff js_str_def)
qed

text \<open>C9: the consent error is reported exactly when every earlier check passes (required
  fields, email, phone, date) and the form data has no truthy \<^verbatim>\<open>consent\<close> entry,
  which is the case for an unticked box.\<close>

theorem validate_appointment_ConsentRequired_iff:
  "validate_appointment clk d = Some ConsentRequired \<longleftrightarrow>
     (\<forall>f \<in> set appointment_required. \<not> field_missing d f) \<and>
     isValidEmail (js_str (d ''email'')) \<and> isValidPhone (js_str (d ''phone'')) \<and>
     \<not> date_before_today clk (js_str (d ''preferredDate'')) \<and> js_falsy (d ''consent'')"
  by (cases "first_missing appointment_required d")
    (simp_all add: validate_appointment_def first_missing_None_iff [symmetric])

theorem validate_appointment_ConsentRequired_iff_witness:
  "validate_appointment \<lparr>now_ms = 1718409600000, tz_offset_ms = 0\<rparr>
     [''firstName'' \<mapsto> ''Ann'', ''lastName'' \<mapsto> ''Lee'', ''email'' \<mapsto> ''a@b.co'',
      ''phone'' \<mapsto> ''555-123-4567'', ''appointmentType'' \<mapsto> ''consultation'',
      ''preferredDate'' \<mapsto> ''2024-06-15'', ''preferredTime'' \<mapsto> ''morning''] = Some ConsentRequired"
proof -
  have "(\<forall>f \<in> set appointment_required. \<not> field_missing
     [''firstName'' \<mapsto> ''Ann'', ''lastName'' \<mapsto> ''Lee'', ''email'' \<mapsto> ''a@b.co'',
      ''phone'' \<mapsto> ''555-123-4567'', ''appointmentType'' \<mapsto> ''consultation'',
      ''preferredDate'' \<mapsto> ''2024-06-15'', ''preferredTime'' \<mapsto> ''morning''] f) \<and>
     isValidEmail ''a@b.co'' \<and> isValidPhone ''555-123-4567'' \<and>
     \<not> date_before_today \<lparr>now_ms = 1718409600000, tz_offset_ms = 0\<rparr> ''2024-06-15''"
    unfolding isValidEmail_def isValidPhone_def by code_simp
  then show ?thesis by (simp add: validate_appointment_ConsentRequired_iff js_str_def js_falsy_def)
qed

text \<open>The contact form's missing-name message reads
  \<^verbatim>\<open>Please fill in the  name field.\<close> with two spaces: removing
  \<^verbatim>\<open>contact\<close> leaves \<^verbatim>\<open>Name\<close>, and the capital gets a space before it.\<close>

theorem contact_name_message_double_space:
  "error_message ContactForm (MissingField ''contactName'') = ''Please fill in the  name field.''"
  by code_simp

end
