(* ===== verification/Presenter.thy ===== *)
theory Presenter
  imports Prelude "HOL-Library.While_Combinator"
begin

text \<open>
  The message popups of \<^verbatim>\<open>src/script.js\<close>: \<^verbatim>\<open>showSuccessMessage\<close>,
  \<^verbatim>\<open>showErrorMessage\<close> and \<^verbatim>\<open>showMessage\<close> (lines 154 to 236), with the close
  button's click listener (lines 225 to 228) and the five-second timer (lines 231 to
  235). The state is the part of the document these functions touch: the
  \<^verbatim>\<open>.message-popup\<close> elements attached to \<^verbatim>\<open>document.body\<close> in document order,
  the number of \<^verbatim>\<open>style#message-animations\<close> elements, the pending timer callbacks
  (due time and the popup each one closes over) and a counter that gives every created
  element its identity. The page has no other element of class \<^verbatim>\<open>message-popup\<close>.
  The event loop runs one callback at a time: an event is a call of
  \<^verbatim>\<open>showMessage\<close>, a click on a popup's close button, or the loop reaching a time at
  which it runs the timers that are due.
\<close>

datatype msg_type = Success | Error

record popup =
  pid :: nat
  ptype :: msg_type
  ptext :: string

record presenter =
  body_popups :: "popup list"
  style_count :: nat
  timers :: "(int \<times> nat) list"
  next_pid :: nat

definition presenter_init :: presenter where
  "presenter_init = \<lparr>body_popups = [], style_count = 0, timers = [], next_pid = 0\<rparr>"

text \<open>\<^verbatim>\<open>node.remove()\<close>: the node leaves the body; removing a detached node does
  nothing.\<close>

definition remove_node :: "nat \<Rightarrow> presenter \<Rightarrow> presenter" where
  "remove_node i st = st\<lparr>body_popups := filter (\<lambda>p. pid p \<noteq> i) (body_popups st)\<rparr>"

text \<open>\<^verbatim>\<open>showMessage(message, type)\<close> at time \<open>now\<close>.\<close>

definition showMessage :: "string \<Rightarrow> msg_type \<Rightarrow> int \<Rightarrow> presenter \<Rightarrow> presenter" where
  "showMessage message type now st =
     (let st1 = (case body_popups st of [] \<Rightarrow> st | existing # _ \<Rightarrow> remove_node (pid existing) st);
          messageDiv = \<lparr>pid = next_pid st1, ptype = type, ptext = message\<rparr>;
          st2 = (if style_count st1 = 0 then st1\<lparr>style_count := 1\<rparr> else st1)
      in st2\<lparr>body_popups := body_popups st2 @ [messageDiv],
             timers := timers st2 @ [(now + 5000, pid messageDiv)],
             next_pid := Suc (next_pid st2)\<rparr>)"

definition showSuccessMessage :: "string \<Rightarrow> int \<Rightarrow> presenter \<Rightarrow> presenter" where
  "showSuccessMessage message now st = showMessage message Success now st"

definition showErrorMessage :: "string \<Rightarrow> int \<Rightarrow> presenter \<Rightarrow> presenter" where
  "showErrorMessage message now st = showMessage message Error now st"

text \<open>The close button's listener: \<^verbatim>\<open>messageDiv.remove()\<close>.\<close>

definition close_click :: "nat \<Rightarrow> presenter \<Rightarrow> presenter" where
  "close_click i st = remove_node i st"

text \<open>The timer callback: \<^verbatim>\<open>if (messageDiv.parentNode) messageDiv.remove()\<close>.\<close>

definition timer_fire :: "nat \<Rightarrow> presenter \<Rightarrow> presenter" where
  "timer_fire i st = (if i \<in> pid ` set (body_popups st) then remove_node i st else st)"

text \<open>The event loop at time \<open>t\<close> runs every pending callback that is due, in the order
  they were scheduled, and drops them from the queue.\<close>

definition fire_due :: "int \<Rightarrow> presenter \<Rightarrow> presenter" where
  "fire_due t st =
     fold (\<lambda>(d, i) s. timer_fire i s) (filter (\<lambda>(d, i). d \<le> t) (timers st))
       (st\<lparr>timers := filter (\<lambda>(d, i). \<not> d \<le> t) (timers st)\<rparr>)"

text \<open>The same run as the event loop performs it, one task at a time: while some
  pending callback is due, the first due one (in the order the timers were scheduled)
  leaves the queue and runs.\<close>

definition has_due :: "int \<Rightarrow> presenter \<Rightarrow> bool" where
  "has_due t st \<longleftrightarrow> list_ex (\<lambda>(d, i). d \<le> t) (timers st)"

definition run_next_due :: "int \<Rightarrow> presenter \<Rightarrow> presenter" where
  "run_next_due t st =
     (case List.find (\<lambda>(d, i). d \<le> t) (timers st) of
        None \<Rightarrow> st
      | Some (d, i) \<Rightarrow> timer_fire i (st\<lparr>timers := remove1 (d, i) (timers st)\<rparr>))"

definition event_loop :: "int \<Rightarrow> presenter \<Rightarrow> presenter option" where
  "event_loop t st = while_option (has_due t) (run_next_due t) st"

datatype pevent = Show string msg_type | CloseClick nat | Tick

fun presenter_step :: "int \<Rightarrow> pevent \<Rightarrow> presenter \<Rightarrow> presenter" where
  "presenter_step now (Show m ty) st = showMessage m ty now st"
| "presenter_step now (CloseClick i) st = close_click i st"
| "presenter_step now Tick st = fire_due now st"

fun presenter_run :: "(int \<times> pevent) list \<Rightarrow> presenter \<Rightarrow> presenter" where
  "presenter_run [] st = st"
| "presenter_run ((t, e) # es) st = presenter_run es (presenter_step t e st)"

text \<open>The invariant: at most one popup is attached, at most one style element exists,
  every identity in use is below the counter, and every attached popup still has its
  timer pending.\<close>

definition presenter_inv :: "presenter \<Rightarrow> bool" where
  "presenter_inv st \<longleftrightarrow>
     length (body_popups st) \<le> 1 \<and> style_count st \<le> 1 \<and>
     (\<forall>p \<in> set (body_popups st). pid p < next_pid st \<and> (\<exists>d. (d, pid p) \<in> set (timers st))) \<and>
     (\<forall>(d, i) \<in> set (timers st). i < next_pid st)"

subsection \<open>Properties\<close>

lemma body_remove_node [simp]:
  "body_popups (remove_node i st) = filter (\<lambda>p. pid p \<noteq> i) (body_popups st)"
  by (simp add: remove_node_def)

lemma remove_node_other [simp]:
  "timers (remove_node i st) = timers st" "next_pid (remove_node i st) = next_pid st"
  "style_count (remove_node i st) = style_count st"
  by (simp_all add: remove_node_def)

lemma remove_node_idem: "remove_node i (remove_node i st) = remove_node i st"
  by (simp add: remove_node_def)

lemma timer_fire_remove_node: "timer_fire i st = remove_node i st"
proof (cases "i \<in> pid ` set (body_popups st)")
  case False
  then have "filter (\<lambda>p. pid p \<noteq> i) (body_popups st) = body_popups st"
    by (auto simp: filter_id_conv)
  with False show ?thesis by (simp add: timer_fire_def remove_node_def)
qed (simp add: timer_fire_def)

lemma fold_timer_fire:
  "fold (\<lambda>(d, i) s. timer_fire i s) L st =
     st\<lparr>body_popups := filter (\<lambda>p. pid p \<notin> snd ` set L) (body_popups st)\<rparr>"
proof (induction L arbitrary: st)
  case Nil
  then show ?case by simp
next
  case (Cons x L)
  then show ?case
    by (cases x) (simp add: timer_fire_remove_node remove_node_def conj_commute)
qed

lemma fire_due_eq:
  "fire_due t st =
     st\<lparr>body_popups := filter (\<lambda>p. pid p \<notin> snd ` set (filter (\<lambda>(d, i). d \<le> t) (timers st)))
                        (body_popups st),
        timers := filter (\<lambda>(d, i). \<not> d \<le> t) (timers st)\<rparr>"
  by (simp add: fire_due_def fold_timer_fire)

lemma insert_remove1: "x \<in> set xs \<Longrightarrow> insert x (set (remove1 x xs)) = set xs"
  by (induction xs) auto

lemma filter_remove1_other: "\<not> P x \<Longrightarrow> filter P (remove1 x xs) = filter P xs"
  by (induction xs) auto

lemma run_next_due_step:
  assumes "has_due t st"
  shows "fire_due t (run_next_due t st) = fire_due t st \<and>
         length (timers (run_next_due t st)) < length (timers st)"
proof -
  have "List.find (\<lambda>(d, i). d \<le> t) (timers st) \<noteq> None"
    using assms by (auto simp: has_due_def list_ex_iff find_None_iff)
  then obtain d i where f: "List.find (\<lambda>(d, i). d \<le> t) (timers st) = Some (d, i)"
    by auto
  then have mem: "(d, i) \<in> set (timers st)" and due: "d \<le> t"
    by (auto simp: find_Some_iff dest: nth_mem)
  have s: "insert i (snd ` set (filter (\<lambda>(d, i). d \<le> t) (remove1 (d, i) (timers st)))) =
           snd ` set (filter (\<lambda>(d, i). d \<le> t) (timers st))"
    using insert_remove1 [OF mem] mem due by (auto simp: image_iff)
  have "run_next_due t st = remove_node i (st\<lparr>timers := remove1 (d, i) (timers st)\<rparr>)"
    by (simp add: run_next_due_def f timer_fire_remove_node)
  then show ?thesis
    using due mem s [symmetric]
    by (auto simp: fire_due_eq remove_node_def filter_remove1_other length_remove1
             intro!: filter_cong dest: length_pos_if_in_set)
qed

lemma fire_due_no_due:
  assumes "\<not> has_due t st"
  shows "fire_due t st = st"
proof -
  have "filter (\<lambda>(d, i). d \<le> t) (timers st) = []"
       "filter (\<lambda>(d, i). \<not> d \<le> t) (timers st) = timers st"
    using assms by (auto simp: has_due_def list_ex_iff filter_empty_conv filter_id_conv)
  then show ?thesis by (simp add: fire_due_eq)
qed

lemma remove_node_inv: "presenter_inv st \<Longrightarrow> presenter_inv (remove_node i st)"
  by (auto simp: presenter_inv_def intro: le_trans [OF length_filter_le])

lemma body_showMessage:
  "length (body_popups st) \<le> 1 \<Longrightarrow>
   body_popups (showMessage m ty now st) = [\<lparr>pid = next_pid st, ptype = ty, ptext = m\<rparr>]"
  by (cases "body_popups st") (auto simp: showMessage_def Let_def filter_empty_conv)

lemma showMessage_inv: "presenter_inv st \<Longrightarrow> presenter_inv (showMessage m ty now st)"
  by (cases "body_popups st") (auto simp: presenter_inv_def showMessage_def Let_def)

lemma fire_due_inv: "presenter_inv st \<Longrightarrow> presenter_inv (fire_due t st)"
  unfolding presenter_inv_def fire_due_eq
  by (fastforce intro: le_trans [OF length_filter_le] simp: image_iff)

lemma presenter_step_inv: "presenter_inv st \<Longrightarrow> presenter_inv (presenter_step t e st)"
  by (cases e) (simp_all add: showMessage_inv close_click_def remove_node_inv fire_due_inv)

lemma presenter_run_inv: "presenter_inv st \<Longrightarrow> presenter_inv (presenter_run es st)"
  by (induction es arbitrary: st) (auto simp: presenter_step_inv)

lemma presenter_init_inv: "presenter_inv presenter_init"
  by (simp add: presenter_inv_def presenter_init_def)




lemma showMessage_fields:
  "timers (showMessage m ty now st) = timers st @ [(now + 5000, next_pid st)]"
  "next_pid (showMessage m ty now st) = Suc (next_pid st)"
  by (cases "body_popups st"; simp add: showMessage_def Let_def)+

lemma popup_expires:
  "(d, i) \<in> set (timers st) \<Longrightarrow> d \<le> t \<Longrightarrow> i \<notin> pid ` set (body_popups (fire_due t st))"
  by (force simp: fire_due_eq)

lemma showMessage_schedules:
  "(now + 5000, next_pid st) \<in> set (timers (showMessage m ty now st))"
  by (cases "body_popups st") (auto simp: showMessage_def Let_def)

text \<open>C3: whatever sequence of \<^verbatim>\<open>showMessage\<close> calls, close clicks and timer
  runs happens from the initial page, at most one popup is attached to the body and at
  most one animation style element exists.\<close>

theorem at_most_one_popup:
  "length (body_popups (presenter_run es presenter_init)) \<le> 1 \<and>
   style_count (presenter_run es presenter_init) \<le> 1"
  using presenter_run_inv [OF presenter_init_inv] by (simp add: presenter_inv_def)

text \<open>C12: a popup shown at time \<open>now\<close> replaces the previous one and stays attached
  when the timers due at any \<open>t < now + 5000\<close> run; when the loop reaches
  \<open>now + 5000\<close> it is gone.\<close>

theorem popup_lifetime:
  assumes "presenter_inv st"
  shows "body_popups (fire_due t (showMessage m ty now st)) =
           (if now + 5000 \<le> t then [] else [\<lparr>pid = next_pid st, ptype = ty, ptext = m\<rparr>])"
proof -
  have body: "body_popups (showMessage m ty now st) = [\<lparr>pid = next_pid st, ptype = ty, ptext = m\<rparr>]"
    using assms by (simp add: presenter_inv_def body_showMessage)
  have old: "\<forall>(d, i) \<in> set (timers st). i \<noteq> next_pid st"
    using assms by (auto simp: presenter_inv_def)
  show ?thesis
    using old by (auto simp: fire_due_eq body showMessage_fields image_iff)
qed

theorem popup_lifetime_witness:
  "body_popups (fire_due 4999 (showMessage ''Sent'' Success 0 presenter_init)) =
     [\<lparr>pid = 0, ptype = Success, ptext = ''Sent''\<rparr>] \<and>
   body_popups (fire_due 5000 (showMessage ''Sent'' Success 0 presenter_init)) = []"
  using popup_lifetime [OF presenter_init_inv, of 4999 "''Sent''" Success 0]
    popup_lifetime [OF presenter_init_inv, of 5000 "''Sent''" Success 0]
  by (simp add: presenter_init_def)

text \<open>C13: the timer of a popup that a later \<^verbatim>\<open>showMessage\<close> replaced finds its
  popup detached and leaves the new popup in place.\<close>

theorem stale_timer_harmless:
  assumes "presenter_inv st" and "i \<in> snd ` set (timers st)"
  shows "body_popups (timer_fire i (showMessage m ty now st)) = body_popups (showMessage m ty now st)"
proof -
  have "i < next_pid st" using assms by (auto simp: presenter_inv_def)
  then show ?thesis
    using assms(1) by (simp add: timer_fire_remove_node presenter_inv_def body_showMessage)
qed

theorem stale_timer_harmless_witness:
  "body_popups (timer_fire 0 (showMessage ''b'' Success 10 (showMessage ''a'' Error 0 presenter_init))) =
     [\<lparr>pid = 1, ptype = Success, ptext = ''b''\<rparr>]"
proof -
  let ?st = "showMessage ''a'' Error 0 presenter_init"
  have inv: "presenter_inv ?st" by (rule showMessage_inv [OF presenter_init_inv])
  have i: "(0::nat) \<in> snd ` set (timers ?st)"
    by (simp add: showMessage_fields presenter_init_def)
  show ?thesis
    using stale_timer_harmless [OF inv i, of "''b''" Success 10] inv
    by (simp add: presenter_inv_def body_showMessage showMessage_fields presenter_init_def)
qed

text \<open>C14: closing a popup is idempotent, and the close click and the timer race
  harmlessly: whichever runs second finds the popup detached and changes nothing.\<close>

theorem dismiss_race:
  "timer_fire i (close_click i st) = close_click i st \<and>
   close_click i (timer_fire i st) = timer_fire i st \<and>
   close_click i (close_click i st) = close_click i st"
  by (simp add: timer_fire_remove_node close_click_def remove_node_idem)

text \<open>The event loop's run of the due timers, one callback per task, ends, and
  it ends in the state that \<open>fire_due\<close>, the batch form used by the rest of the
  development, describes.\<close>

lemma event_loop_fire_due: "event_loop t st = Some (fire_due t st)"
proof -
  let ?P = "\<lambda>s. fire_due t s = fire_due t st"
  obtain r where r: "while_option (has_due t) (run_next_due t) st = Some r"
    using measure_while_option_Some [of ?P "has_due t" "run_next_due t" "\<lambda>s. length (timers s)" st]
      run_next_due_step by auto
  have "?P r"
    using while_option_rule [of ?P "has_due t" "run_next_due t", OF _ r] run_next_due_step by auto
  moreover have "\<not> has_due t r" using while_option_stop [OF r] .
  ultimately show ?thesis using r fire_due_no_due by (simp add: event_loop_def)
qed

end
