(* ===== verification/Forms.thy ===== *)
theory Forms
  imports Validator Presenter
begin

text \<open>
  The submit handlers of the appointment and contact forms (\<^verbatim>\<open>src/script.js\<close>
  lines 32 to 78) and the two validators with their error popups (lines 81 to 140).
  A form is its list of controls in document order. \<^verbatim>\<open>new FormData(form)\<close> lists
  the name and value of every enabled, named control, a checkbox only when it is
  ticked; \<^verbatim>\<open>Object.fromEntries\<close> turns the list into the \<open>form_data\<close> object
  (\<open>from_entries\<close>); \<^verbatim>\<open>form.reset()\<close> restores every control's default value and
  default checkedness. A handler takes the clock, the form and the popup state and returns
  the new form and popup state; \<^verbatim>\<open>e.preventDefault()\<close> keeps the page, which the
  model reflects by having no navigation at all.
\<close>

datatype control_kind = TextControl | TelControl | CheckboxControl

record control =
  cname :: string
  ckind :: control_kind
  cvalue :: string
  cdefault :: string
  cchecked :: bool
  cdefault_checked :: bool
  cdisabled :: bool

type_synonym form = "control list"

text \<open>The entry list of \<^verbatim>\<open>new FormData(form)\<close>.\<close>

definition control_entries :: "control \<Rightarrow> (string \<times> string) list" where
  "control_entries c =
     (if cdisabled c \<or> cname c = [] then []
      else case ckind c of
        TextControl \<Rightarrow> [(cname c, cvalue c)]
      | TelControl \<Rightarrow> [(cname c, cvalue c)]
      | CheckboxControl \<Rightarrow> (if cchecked c then [(cname c, cvalue c)] else []))"

definition form_entries :: "form \<Rightarrow> (string \<times> string) list" where
  "form_entries f = concat (map control_entries f)"

text \<open>\<^verbatim>\<open>Object.fromEntries(new FormData(form))\<close> (lines 40, 41, 63, 64).\<close>

definition form_object :: "form \<Rightarrow> form_data" where
  "form_object f = from_entries (form_entries f)"

text \<open>\<^verbatim>\<open>form.reset()\<close> (lines 52, 75).\<close>

definition form_reset :: "form \<Rightarrow> form" where
  "form_reset f = map (\<lambda>c. c\<lparr>cvalue := cdefault c, cchecked := cdefault_checked c\<rparr>) f"

subsection \<open>Validators with their popups\<close>

text \<open>\<^verbatim>\<open>validateAppointmentForm(data)\<close>: at the first failing check it calls
  \<^verbatim>\<open>showErrorMessage\<close> with that check's message and returns \<^verbatim>\<open>false\<close>.\<close>

definition validateAppointmentForm :: "clock \<Rightarrow> form_data \<Rightarrow> presenter \<Rightarrow> bool \<times> presenter" where
  "validateAppointmentForm clk data st =
     (case validate_appointment clk data of
        Some e \<Rightarrow> (False, showErrorMessage (error_message AppointmentForm e) (now_ms clk) st)
      | None \<Rightarrow> (True, st))"

definition validateContactForm :: "clock \<Rightarrow> form_data \<Rightarrow> presenter \<Rightarrow> bool \<times> presenter" where
  "validateContactForm clk data st =
     (case validate_contact data of
        Some e \<Rightarrow> (False, showErrorMessage (error_message ContactForm e) (now_ms clk) st)
      | None \<Rightarrow> (True, st))"

definition appointment_success :: string where
  "appointment_success = ''Appointment request submitted successfully! We will contact you within 24 hours to confirm your appointment.''"

definition contact_success :: string where
  "contact_success = ''Message sent successfully! We will get back to you as soon as possible.''"

subsection \<open>Submit handlers\<close>

definition appointment_submit :: "clock \<Rightarrow> form \<Rightarrow> presenter \<Rightarrow> form \<times> presenter" where
  "appointment_submit clk f st =
     (let data = form_object f;
          (ok, st') = validateAppointmentForm clk data st
      in if \<not> ok then (f, st')
         else (form_reset f, showSuccessMessage appointment_success (now_ms clk) st'))"

definition contact_submit :: "clock \<Rightarrow> form \<Rightarrow> presenter \<Rightarrow> form \<times> presenter" where
  "contact_submit clk f st =
     (let data = form_object f;
          (ok, st') = validateContactForm clk data st
      in if \<not> ok then (f, st')
         else (form_reset f, showSuccessMessage contact_success (now_ms clk) st'))"

subsection \<open>Properties\<close>

lemma appointment_submit_eq [handler_simps]:
  "appointment_submit clk f st =
     (case validate_appointment clk (form_object f) of
        Some e \<Rightarrow> (f, showMessage (error_message AppointmentForm e) Error (now_ms clk) st)
      | None \<Rightarrow> (form_reset f, showMessage appointment_success Success (now_ms clk) st))"
  by (simp add: appointment_submit_def validateAppointmentForm_def showErrorMessage_def
      showSuccessMessage_def split: option.splits)

lemma contact_submit_eq [handler_simps]:
  "contact_submit clk f st =
     (case validate_contact (form_object f) of
        Some e \<Rightarrow> (f, showMessage (error_message ContactForm e) Error (now_ms clk) st)
      | None \<Rightarrow> (form_reset f, showMessage contact_success Success (now_ms clk) st))"
  by (simp add: contact_submit_def validateContactForm_def showErrorMessage_def
      showSuccessMessage_def split: option.splits)

lemma form_entries_simps [simp]:
  "form_entries [] = []"
  "form_entries (c # cs) = control_entries c @ form_entries cs"
  "form_entries (xs @ ys) = form_entries xs @ form_entries ys"
  by (simp_all add: form_entries_def)

lemma form_entries_names: "fst ` set (form_entries f) \<subseteq> cname ` set f"
  by (auto simp: form_entries_def control_entries_def split: if_splits control_kind.splits)

lemma control_entries_plain:
  "ckind c \<noteq> CheckboxControl \<Longrightarrow> \<not> cdisabled c \<Longrightarrow> cname c \<noteq> [] \<Longrightarrow>
   control_entries c = [(cname c, cvalue c)]"
  by (cases "ckind c") (simp_all add: control_entries_def)

lemma form_object_text:
  assumes "ckind c \<noteq> CheckboxControl" and "\<not> cdisabled c" and "cname c \<noteq> []"
    and "cname c \<notin> cname ` set post"
  shows "form_object (pre @ c # post) (cname c) = Some (cvalue c)"
proof -
  have post: "from_entries (form_entries post) (cname c) = None"
    using assms(4) form_entries_names [of post] by (auto simp: from_entries_None_iff)
  show ?thesis
    using assms(1-3) by (simp add: form_object_def from_entries_append map_add_def post
        control_entries_plain)
qed

text \<open>C15: the input normaliser reads a checkbox as a presence flag: a ticked, enabled
  checkbox whose name no other control carries yields its value under its name, an
  unticked one yields no entry at all.\<close>

theorem form_object_checkbox:
  assumes "ckind c = CheckboxControl" and "\<not> cdisabled c" and "cname c \<noteq> []"
    and "cname c \<notin> cname ` set (pre @ post)"
  shows "form_object (pre @ c # post) (cname c) = (if cchecked c then Some (cvalue c) else None)"
proof -
  have pre: "from_entries (form_entries pre) (cname c) = None"
    and post: "from_entries (form_entries post) (cname c) = None"
    using assms(4) form_entries_names [of pre] form_entries_names [of post]
    by (auto simp: from_entries_None_iff)
  show ?thesis
    using assms(1-3) by (simp add: form_object_def from_entries_append map_add_def pre post
        control_entries_def)
qed

theorem form_object_checkbox_witness:
  "form_object
     [\<lparr>cname = ''firstName'', ckind = TextControl, cvalue = ''Ann'', cdefault = [],
       cchecked = False, cdefault_checked = False, cdisabled = False\<rparr>,
      \<lparr>cname = ''consent'', ckind = CheckboxControl, cvalue = ''on'', cdefault = ''on'',
       cchecked = True, cdefault_checked = False, cdisabled = False\<rparr>] ''consent'' = Some ''on''"
  using form_object_checkbox
    [of "\<lparr>cname = ''consent'', ckind = CheckboxControl, cvalue = ''on'', cdefault = ''on'',
         cchecked = True, cdefault_checked = False, cdisabled = False\<rparr>"
        "[\<lparr>cname = ''firstName'', ckind = TextControl, cvalue = ''Ann'', cdefault = [],
          cchecked = False, cdefault_checked = False, cdisabled = False\<rparr>]" "[]"]
  by simp

text \<open>C16: a submission of the appointment form either fails validation, keeps the form
  as it is and shows that failure's error popup, or passes, resets the form and shows the
  success popup; in both cases the new popup is the only one attached.\<close>

theorem appointment_submit_outcome:
  assumes "presenter_inv st"
  shows "appointment_submit clk f st =
     (case validate_appointment clk (form_object f) of
        Some e \<Rightarrow> (f, showMessage (error_message AppointmentForm e) Error (now_ms clk) st)
      | None \<Rightarrow> (form_reset f, showMessage appointment_success Success (now_ms clk) st)) \<and>
     body_popups (snd (appointment_submit clk f st)) =
       [\<lparr>pid = next_pid st,
         ptype = (if validate_appointment clk (form_object f) = None then Success else Error),
         ptext = (case validate_appointment clk (form_object f) of
                    Some e \<Rightarrow> error_message AppointmentForm e | None \<Rightarrow> appointment_success)\<rparr>]"
  using assms
  by (simp add: handler_simps presenter_inv_def body_showMessage split: option.splits)

theorem appointment_submit_outcome_witness:
  "body_popups (snd (appointment_submit \<lparr>now_ms = 0, tz_offset_ms = 0\<rparr> [] presenter_init)) =
     [\<lparr>pid = 0, ptype = Error, ptext = error_message AppointmentForm (MissingField ''firstName'')\<rparr>]"
proof -
  have v: "validate_appointment \<lparr>now_ms = 0, tz_offset_ms = 0\<rparr> (form_object []) =
      Some (MissingField ''firstName'')"
    by (simp add: validate_appointment_def appointment_required_def field_missing_def form_object_def)
  show ?thesis
    using appointment_submit_outcome [OF presenter_init_inv, of "\<lparr>now_ms = 0, tz_offset_ms = 0\<rparr>" "[]",
      THEN conjunct2]
    by (simp only: v option.case) (simp add: presenter_init_def)
qed

text \<open>C25: a submission of the contact form either fails validation, keeps the form as
  it is and shows that failure's error popup, or passes, resets the form and shows the
  contact success popup; in both cases the new popup is the only one attached.\<close>

theorem contact_submit_outcome:
  assumes "presenter_inv st"
  shows "contact_submit clk f st =
     (case validate_contact (form_object f) of
        Some e \<Rightarrow> (f, showMessage (error_message ContactForm e) Error (now_ms clk) st)
      | None \<Rightarrow> (form_reset f, showMessage contact_success Success (now_ms clk) st)) \<and>
     body_popups (snd (contact_submit clk f st)) =
       [\<lparr>pid = next_pid st,
         ptype = (if validate_contact (form_object f) = None then Success else Error),
         ptext = (case validate_contact (form_object f) of
                    Some e \<Rightarrow> error_message ContactForm e | None \<Rightarrow> contact_success)\<rparr>]"
  using assms
  by (simp add: handler_simps presenter_inv_def body_showMessage split: option.splits)

theorem contact_submit_outcome_witness:
  "body_popups (snd (contact_submit \<lparr>now_ms = 0, tz_offset_ms = 0\<rparr> [] presenter_init)) =
     [\<lparr>pid = 0, ptype = Error, ptext = error_message ContactForm (MissingField ''contactName'')\<rparr>]"
proof -
  have v: "validate_contact (form_object []) = Some (MissingField ''contactName'')"
    by (simp add: validate_contact_def contact_required_def field_missing_def form_object_def)
  show ?thesis
    using contact_submit_outcome [OF presenter_init_inv, of "\<lparr>now_ms = 0, tz_offset_ms = 0\<rparr>" "[]",
      THEN conjunct2]
    by (simp only: v option.case) (simp add: presenter_init_def)
qed

end
