(* ===== verification/Navigation.thy ===== *)
theory Navigation
  imports Prelude
begin

text \<open>
  The mobile navigation of \<^verbatim>\<open>src/script.js\<close> (lines 1 to 29) and the
  \<^verbatim>\<open>aria-expanded\<close> attribute that the accessibility handler keeps on the same
  hamburger button (lines 340 to 349). The state is the \<^verbatim>\<open>active\<close> class of the menu
  and of the hamburger and the hamburger's \<^verbatim>\<open>aria-expanded\<close> attribute. A click is
  classified by its target: the hamburger, a \<^verbatim>\<open>.nav-link\<close> inside the menu, another
  element inside the menu, or an element outside both. The click is dispatched to the
  target's listeners in registration order (the navigation handler registered first,
  the accessibility handler later) and then bubbles to the document's listener. The
  page's markup decides whether the hamburger and the menu exist; the navigation
  listeners are installed only when both do (line 6), the accessibility listener
  whenever the hamburger does (line 341).
\<close>

datatype click_target = HamburgerClick | NavLinkClick | MenuClick | OutsideClick

record nav_page =
  has_hamburger :: bool
  has_nav_menu :: bool

record nav_state =
  menu_active :: bool
  hamburger_active :: bool
  aria_expanded :: "string option"

text \<open>State after the \<^verbatim>\<open>DOMContentLoaded\<close> handlers: no \<^verbatim>\<open>active\<close> class in
  the markup, and \<^verbatim>\<open>aria-expanded="false"\<close> set on the hamburger (line 343).\<close>

definition nav_init :: "nav_page \<Rightarrow> nav_state" where
  "nav_init pg = \<lparr>menu_active = False, hamburger_active = False,
                  aria_expanded = (if has_hamburger pg then Some ''false'' else None)\<rparr>"

definition nav_installed :: "nav_page \<Rightarrow> bool" where
  "nav_installed pg \<longleftrightarrow> has_hamburger pg \<and> has_nav_menu pg"

text \<open>Lines 7 to 10: \<^verbatim>\<open>classList.toggle('active')\<close> on menu and hamburger.\<close>

definition hamburger_toggle :: "nav_state \<Rightarrow> nav_state" where
  "hamburger_toggle s = s\<lparr>menu_active := \<not> menu_active s, hamburger_active := \<not> hamburger_active s\<rparr>"

text \<open>Lines 16, 17 and 24, 25: \<^verbatim>\<open>classList.remove('active')\<close> on both.\<close>

definition close_menu :: "nav_state \<Rightarrow> nav_state" where
  "close_menu s = s\<lparr>menu_active := False, hamburger_active := False\<rparr>"

text \<open>Lines 345 to 348: \<^verbatim>\<open>setAttribute('aria-expanded', !isExpanded)\<close>, where
  \<^verbatim>\<open>isExpanded\<close> compares the attribute with \<^verbatim>\<open>'true'\<close>; the boolean is stored as
  its string.\<close>

definition aria_toggle :: "nav_state \<Rightarrow> nav_state" where
  "aria_toggle s =
     s\<lparr>aria_expanded := Some (if aria_expanded s = Some ''true'' then ''false'' else ''true'')\<rparr>"

text \<open>One click: the target's listeners, then the document's listener of line 22,
  which closes the menu unless the target lies inside the hamburger or the menu.\<close>

fun nav_click :: "nav_page \<Rightarrow> click_target \<Rightarrow> nav_state \<Rightarrow> nav_state" where
  "nav_click pg HamburgerClick s =
     (let s1 = (if nav_installed pg then hamburger_toggle s else s)
      in if has_hamburger pg then aria_toggle s1 else s1)"
| "nav_click pg NavLinkClick s = (if nav_installed pg then close_menu s else s)"
| "nav_click pg MenuClick s = s"
| "nav_click pg OutsideClick s = (if nav_installed pg then close_menu s else s)"

definition nav_run :: "nav_page \<Rightarrow> click_target list \<Rightarrow> nav_state \<Rightarrow> nav_state" where
  "nav_run pg cs s = fold (nav_click pg) cs s"

text \<open>The attribute tells the truth about the menu: \<^verbatim>\<open>"true"\<close> exactly when
  the menu is open.\<close>

definition aria_matches :: "nav_state \<Rightarrow> bool" where
  "aria_matches s \<longleftrightarrow> aria_expanded s = Some (if menu_active s then ''true'' else ''false'')"

subsection \<open>Properties\<close>

lemma nav_click_sync: "menu_active s = hamburger_active s \<Longrightarrow>
  menu_active (nav_click pg c s) = hamburger_active (nav_click pg c s)"
  by (cases c) (simp_all add: hamburger_toggle_def close_menu_def aria_toggle_def Let_def)

lemma nav_run_sync: "menu_active s = hamburger_active s \<Longrightarrow>
  menu_active (nav_run pg cs s) = hamburger_active (nav_run pg cs s)"
proof (induction cs arbitrary: s)
  case Nil
  then show ?case by (simp add: nav_run_def)
next
  case (Cons c cs)
  from Cons.prems have "menu_active (nav_click pg c s) = hamburger_active (nav_click pg c s)"
    by (rule nav_click_sync)
  then show ?case using Cons.IH by (simp add: nav_run_def)
qed

text \<open>C17: the menu and the hamburger carry the \<^verbatim>\<open>active\<close> class together after
  any sequence of clicks, whatever the markup provides.\<close>

theorem nav_classes_agree:
  "menu_active (nav_run pg cs (nav_init pg)) = hamburger_active (nav_run pg cs (nav_init pg))"
  by (rule nav_run_sync) (simp add: nav_init_def)

lemma nav_click_aria:
  "nav_installed pg \<Longrightarrow> c \<noteq> NavLinkClick \<Longrightarrow> c \<noteq> OutsideClick \<Longrightarrow>
   aria_matches s \<Longrightarrow> aria_matches (nav_click pg c s)"
  by (cases c) (simp_all add: aria_matches_def nav_installed_def hamburger_toggle_def aria_toggle_def)

lemma nav_run_aria:
  "nav_installed pg \<Longrightarrow> \<forall>c \<in> set cs. c \<noteq> NavLinkClick \<and> c \<noteq> OutsideClick \<Longrightarrow>
   aria_matches s \<Longrightarrow> aria_matches (nav_run pg cs s)"
proof (induction cs arbitrary: s)
  case Nil
  then show ?case by (simp add: nav_run_def)
next
  case (Cons c cs)
  from Cons.prems have "aria_matches (nav_click pg c s)"
    by (intro nav_click_aria) simp_all
  with Cons.prems Cons.IH show ?case by (simp add: nav_run_def)
qed

text \<open>C18: as long as the menu is neither closed by a link nor by a click outside,
  \<^verbatim>\<open>aria-expanded\<close> reports the menu's state truthfully.\<close>

theorem aria_sync_without_close:
  assumes "nav_installed pg" and "\<forall>c \<in> set cs. c \<noteq> NavLinkClick \<and> c \<noteq> OutsideClick"
  shows "aria_matches (nav_run pg cs (nav_init pg))"
  using assms by (intro nav_run_aria) (simp_all add: aria_matches_def nav_init_def nav_installed_def)

theorem aria_sync_without_close_witness:
  "aria_matches (nav_run \<lparr>has_hamburger = True, has_nav_menu = True\<rparr>
     [HamburgerClick, MenuClick, HamburgerClick, HamburgerClick]
     (nav_init \<lparr>has_hamburger = True, has_nav_menu = True\<rparr>))"
  by (rule aria_sync_without_close) (simp_all add: nav_installed_def)

lemma nav_run_append: "nav_run pg (cs @ ds) s = nav_run pg ds (nav_run pg cs s)"
  by (simp add: nav_run_def)

text \<open>Only the hamburger's own listener writes \<^verbatim>\<open>aria-expanded\<close>: from
  \<^verbatim>\<open>"true"\<close> or \<^verbatim>\<open>"false"\<close>, the attribute after a run says \<^verbatim>\<open>"true"\<close> exactly
  when it started so and the hamburger was clicked an even number of times, or started
  otherwise and was clicked an odd number of times.\<close>

lemma nav_run_aria_parity:
  assumes "has_hamburger pg" and "aria_expanded s = Some (if b then ''true'' else ''false'')"
  shows "aria_expanded (nav_run pg cs s) =
    Some (if b = even (length (filter ((=) HamburgerClick) cs)) then ''true'' else ''false'')"
  using assms(2)
proof (induction cs arbitrary: s b)
  case Nil
  then show ?case by (simp add: nav_run_def)
next
  case (Cons c cs)
  have "aria_expanded (nav_click pg c s) =
     Some (if (if c = HamburgerClick then \<not> b else b) then ''true'' else ''false'')"
    using Cons.prems assms(1)
    by (cases c) (auto simp: Let_def hamburger_toggle_def close_menu_def aria_toggle_def)
  from Cons.IH [OF this] show ?case by (cases c) (simp_all add: nav_run_def)
qed

text \<open>C19: closing the menu by a link or by a click outside does not update
  \<^verbatim>\<open>aria-expanded\<close>: whatever clicks came before, if the hamburger was clicked an odd
  number of times, a final link or outside click leaves the menu closed while the
  attribute says \<^verbatim>\<open>"true"\<close>.\<close>

theorem aria_desync:
  assumes "nav_installed pg" and "c = NavLinkClick \<or> c = OutsideClick"
    and "odd (length (filter ((=) HamburgerClick) cs))"
  shows "\<not> menu_active (nav_run pg (cs @ [c]) (nav_init pg)) \<and>
         aria_expanded (nav_run pg (cs @ [c]) (nav_init pg)) = Some ''true''"
proof -
  have h: "has_hamburger pg" using assms(1) by (simp add: nav_installed_def)
  have "aria_expanded (nav_init pg) = Some (if False then ''true'' else ''false'')"
    using h by (simp add: nav_init_def)
  from nav_run_aria_parity [OF h this, of "cs @ [c]"] show ?thesis
    using assms by (auto simp: nav_run_def close_menu_def)
qed

theorem aria_desync_witness:
  "\<not> menu_active (nav_run \<lparr>has_hamburger = True, has_nav_menu = True\<rparr>
       [MenuClick, HamburgerClick, HamburgerClick, HamburgerClick, OutsideClick]
       (nav_init \<lparr>has_hamburger = True, has_nav_menu = True\<rparr>)) \<and>
   aria_expanded (nav_run \<lparr>has_hamburger = True, has_nav_menu = True\<rparr>
       [MenuClick, HamburgerClick, HamburgerClick, HamburgerClick, OutsideClick]
       (nav_init \<lparr>has_hamburger = True, has_nav_menu = True\<rparr>)) = Some ''true''"
  using aria_desync [of "\<lparr>has_hamburger = True, has_nav_menu = True\<rparr>" OutsideClick
      "[MenuClick, HamburgerClick, HamburgerClick, HamburgerClick]"]
  by (simp add: nav_installed_def)

end
