(* ===== verification/PhoneFormat.thy ===== *)
theory PhoneFormat
  imports Validator
begin

text \<open>
  The \<^verbatim>\<open>input\<close> listener on telephone fields (\<^verbatim>\<open>src/script.js\<close> lines 320 to
  334): the value loses every non-digit, then a value of at least six digits goes through
  \<^verbatim>\<open>value.replace(/(\d{3})(\d{3})(\d{4})/, '($1) $2-$3')\<close> and a value of three to
  five digits through \<^verbatim>\<open>value.replace(/(\d{3})(\d{0,3})/, '($1) $2')\<close>. A
  \<^verbatim>\<open>replace\<close> with a non-global regex rewrites the leftmost match only and leaves the
  string unchanged when nothing matches; the two functions below scan for the leftmost
  match position by position, with the greedy \<^verbatim>\<open>\d{0,3}\<close> taking as many digits as
  it can.
\<close>

fun replace_group_3_3_4 :: "string \<Rightarrow> string" where
  "replace_group_3_3_4 [] = []"
| "replace_group_3_3_4 (c # cs) =
     (if 9 \<le> length cs \<and> (\<forall>x \<in> set (take 10 (c # cs)). js_digit x)
      then ''('' @ take 3 (c # cs) @ '') '' @ take 3 (drop 3 (c # cs)) @ ''-'' @
           take 4 (drop 6 (c # cs)) @ drop 10 (c # cs)
      else c # replace_group_3_3_4 cs)"

fun replace_group_3_upto3 :: "string \<Rightarrow> string" where
  "replace_group_3_upto3 [] = []"
| "replace_group_3_upto3 (c # cs) =
     (if 2 \<le> length cs \<and> (\<forall>x \<in> set (take 3 (c # cs)). js_digit x)
      then (let g2 = take 3 (takeWhile js_digit (drop 3 (c # cs)))
            in ''('' @ take 3 (c # cs) @ '') '' @ g2 @ drop (3 + length g2) (c # cs))
      else c # replace_group_3_upto3 cs)"

definition format_phone :: "string \<Rightarrow> string" where
  "format_phone v =
     (let value = strip_non_digits v
      in if 6 \<le> length value then replace_group_3_3_4 value
         else if 3 \<le> length value then replace_group_3_upto3 value
         else value)"

subsection \<open>Properties\<close>

lemma split_3_3_4: "take 3 s @ take 3 (drop 3 s) @ take 4 (drop 6 s) @ drop 10 s = s"
proof -
  have six: "take 6 s = take 3 s @ take 3 (drop 3 s)" using take_add [of 3 3 s] by simp
  have ten: "take 10 s = take 6 s @ take 4 (drop 6 s)" using take_add [of 6 4 s] by simp
  have "take 3 s @ take 3 (drop 3 s) @ take 4 (drop 6 s) @ drop 10 s = take 10 s @ drop 10 s"
    by (simp only: ten six append.assoc)
  then show ?thesis by (simp only: append_take_drop_id)
qed

lemma strip_replace_group_3_3_4: "strip_non_digits (replace_group_3_3_4 s) = strip_non_digits s"
proof (induction s rule: replace_group_3_3_4.induct)
  case 1
  then show ?case by simp
next
  case (2 c cs)
  show ?case
  proof (cases "9 \<le> length cs \<and> (\<forall>x \<in> set (take 10 (c # cs)). js_digit x)")
    case True
    have "replace_group_3_3_4 (c # cs) = ''('' @ take 3 (c # cs) @ '') '' @ take 3 (drop 3 (c # cs)) @ ''-'' @
           take 4 (drop 6 (c # cs)) @ drop 10 (c # cs)"
      unfolding replace_group_3_3_4.simps(2) by (rule if_P [OF True])
    then have "strip_non_digits (replace_group_3_3_4 (c # cs)) =
      strip_non_digits (take 3 (c # cs) @ take 3 (drop 3 (c # cs)) @ take 4 (drop 6 (c # cs)) @ drop 10 (c # cs))"
      by (simp only: strip_non_digits_append js_string_simps append_Nil)
    then show ?thesis by (simp only: split_3_3_4)
  next
    case False
    have "replace_group_3_3_4 (c # cs) = c # replace_group_3_3_4 cs"
      unfolding replace_group_3_3_4.simps(2) by (rule if_not_P [OF False])
    with "2.IH" False show ?thesis by (simp add: strip_non_digits_def)
  qed
qed
lemma take_takeWhile_drop:
  "take n (takeWhile P xs) @ drop (length (take n (takeWhile P xs))) xs = xs"
proof -
  have "take n (takeWhile P xs) = take (length (take n (takeWhile P xs))) xs"
    by (metis length_take min.commute take_take takeWhile_eq_take)
  then show ?thesis by (metis append_take_drop_id)
qed

lemma strip_replace_group_3_upto3: "strip_non_digits (replace_group_3_upto3 s) = strip_non_digits s"
proof (induction s rule: replace_group_3_upto3.induct)
  case 1
  then show ?case by simp
next
  case (2 c cs)
  show ?case
  proof (cases "2 \<le> length cs \<and> (\<forall>x \<in> set (take 3 (c # cs)). js_digit x)")
    case True
    let ?g2 = "take 3 (takeWhile js_digit (drop 3 (c # cs)))"
    have "replace_group_3_upto3 (c # cs) =
        ''('' @ take 3 (c # cs) @ '') '' @ ?g2 @ drop (3 + length ?g2) (c # cs)"
      unfolding replace_group_3_upto3.simps(2) Let_def by (rule if_P [OF True])
    moreover have "take 3 (c # cs) @ ?g2 @ drop (3 + length ?g2) (c # cs) = c # cs"
    proof -
      have "?g2 @ drop (length ?g2) (drop 3 (c # cs)) = drop 3 (c # cs)"
        by (rule take_takeWhile_drop)
      then show ?thesis by (metis append_take_drop_id drop_drop add.commute)
    qed
    ultimately show ?thesis
      by (metis strip_non_digits_append strip_punct append.left_neutral)
  next
    case False
    have "replace_group_3_upto3 (c # cs) = c # replace_group_3_upto3 cs"
      unfolding replace_group_3_upto3.simps(2) by (rule if_not_P [OF False])
    with "2.IH" [OF False] show ?thesis by (simp add: strip_non_digits_def)
  qed
qed

lemma format_phone_strip: "format_phone (strip_non_digits v) = format_phone v"
  by (simp add: format_phone_def)

lemma format_phone_digits: "strip_non_digits (format_phone v) = strip_non_digits v"
  by (simp add: format_phone_def Let_def strip_replace_group_3_3_4 strip_replace_group_3_upto3)

text \<open>C21: formatting is idempotent: the listener firing again on its own output
  changes nothing.\<close>

theorem format_phone_idem: "format_phone (format_phone v) = format_phone v"
  by (metis format_phone_strip format_phone_digits)

text \<open>C20: formatting never changes whether \<^verbatim>\<open>isValidPhone\<close> accepts the
  field.\<close>

theorem format_phone_isValidPhone: "isValidPhone (format_phone v) = isValidPhone v"
  by (simp add: isValidPhone_def format_phone_digits)

lemma replace_group_3_3_4_short: "length s < 10 \<Longrightarrow> replace_group_3_3_4 s = s"
  by (induction s) auto

lemma replace_group_3_3_4_digits:
  assumes "10 \<le> length d" and "\<forall>x \<in> set d. js_digit x"
  shows "replace_group_3_3_4 d =
     ''('' @ take 3 d @ '') '' @ take 3 (drop 3 d) @ ''-'' @ take 4 (drop 6 d) @ drop 10 d"
proof -
  obtain c cs where d: "d = c # cs" using assms by (cases d) auto
  have "\<forall>x \<in> set (take 10 (c # cs)). js_digit x" using assms(2) d by (auto dest: in_set_takeD)
  moreover have "9 \<le> length cs" using assms d by simp
  ultimately show ?thesis using d by simp
qed


text \<open>C22: with six to nine digits the first pattern needs ten digits and does not
  match, so the field shows bare digits: typing the sixth digit removes the
  \<^verbatim>\<open>(555) 12\<close> formatting that five digits had.\<close>

theorem format_phone_six_to_nine:
  "6 \<le> length (strip_non_digits v) \<Longrightarrow> length (strip_non_digits v) < 10 \<Longrightarrow>
   format_phone v = strip_non_digits v"
  by (simp add: format_phone_def replace_group_3_3_4_short)

text \<open>C23: with ten or more digits the field shows \<^verbatim>\<open>(ddd) ddd-dddd\<close> followed by
  the remaining digits.\<close>

theorem format_phone_ten:
  assumes "10 \<le> length (strip_non_digits v)"
  shows "format_phone v =
     (let d = strip_non_digits v in
      ''('' @ take 3 d @ '') '' @ take 3 (drop 3 d) @ ''-'' @ take 4 (drop 6 d) @ drop 10 d)"
  using assms replace_group_3_3_4_digits [of "strip_non_digits v"] set_strip_non_digits [of _ v]
  by (simp add: format_phone_def Let_def)

theorem format_phone_six_to_nine_witness:
  "format_phone ''555-1234'' = ''5551234'' \<and> format_phone ''55512'' = ''(555) 12''"
proof -
  have a: "6 \<le> length (strip_non_digits ''555-1234'')" "length (strip_non_digits ''555-1234'') < 10"
    by code_simp+
  have "format_phone ''555-1234'' = strip_non_digits ''555-1234''"
    by (rule format_phone_six_to_nine [OF a])
  also have "\<dots> = ''5551234''" by code_simp
  finally show ?thesis by code_simp
qed

theorem format_phone_ten_witness: "format_phone ''555.123.4567'' = ''(555) 123-4567''"
proof -
  have a: "10 \<le> length (strip_non_digits ''555.123.4567'')" by code_simp
  have "format_phone ''555.123.4567'' =
     (let d = strip_non_digits ''555.123.4567'' in
      ''('' @ take 3 d @ '') '' @ take 3 (drop 3 d) @ ''-'' @ take 4 (drop 6 d) @ drop 10 d)"
    by (rule format_phone_ten [OF a])
  also have "\<dots> = ''(555) 123-4567''" by code_simp
  finally show ?thesis .
qed



end
