(* ===== verification/Observers.thy ===== *)
theory Observers
  imports Validator
begin

text \<open>
  The two \<^verbatim>\<open>IntersectionObserver\<close> callbacks of \<^verbatim>\<open>src/script.js\<close>: the scroll
  animation of \<^verbatim>\<open>.glass-card\<close> elements (lines 258 to 279) and the lazy loading of
  \<^verbatim>\<open>img[data-src]\<close> (lines 386 to 405). Elements are numbered. The observer keeps
  the set of observed targets; the browser collects an entry for an observed target each
  time its intersection changes and later calls the callback with the whole batch of
  entries collected so far. \<^verbatim>\<open>unobserve\<close> drops the target from the observed set but
  not from the batch being processed.
\<close>

type_synonym entry = "nat \<times> bool"   \<comment> \<open>target and \<^verbatim>\<open>isIntersecting\<close>\<close>

subsection \<open>Scroll animation\<close>

record anim_state =
  faded :: "nat \<Rightarrow> bool"      \<comment> \<open>class \<^verbatim>\<open>fade-in-up\<close> present\<close>
  anim_observing :: "nat set"

definition anim_init :: "nat list \<Rightarrow> anim_state" where
  "anim_init cards = \<lparr>faded = (\<lambda>_. False), anim_observing = set cards\<rparr>"

text \<open>Lines 266 to 271, one entry.\<close>

definition anim_entry :: "anim_state \<Rightarrow> entry \<Rightarrow> anim_state" where
  "anim_entry s e =
     (case e of (t, intersecting) \<Rightarrow>
        if intersecting
        then s\<lparr>faded := (faded s)(t := True), anim_observing := anim_observing s - {t}\<rparr>
        else s)"

definition anim_callback :: "entry list \<Rightarrow> anim_state \<Rightarrow> anim_state" where
  "anim_callback es s = foldl anim_entry s es"

subsection \<open>Lazy images\<close>

record image =
  img_src :: "string option"
  img_data_src :: "string option"

record lazy_state =
  images :: "nat \<Rightarrow> image"
  lazy_observing :: "nat set"

text \<open>Lines 389 to 404: the images with a \<^verbatim>\<open>data-src\<close> attribute are observed (when
  there is at least one).\<close>

definition lazy_init :: "nat list \<Rightarrow> (nat \<Rightarrow> image) \<Rightarrow> lazy_state" where
  "lazy_init ids imgs =
     \<lparr>images = imgs, lazy_observing = set (filter (\<lambda>i. img_data_src (imgs i) \<noteq> None) ids)\<rparr>"

text \<open>Lines 394 to 399, one entry: \<^verbatim>\<open>img.src = img.dataset.src\<close> (an absent
  attribute reads as \<^verbatim>\<open>undefined\<close>, which the \<^verbatim>\<open>src\<close> setter turns into the string
  \<^verbatim>\<open>"undefined"\<close>), \<^verbatim>\<open>removeAttribute('data-src')\<close>, \<^verbatim>\<open>unobserve\<close>.\<close>

definition lazy_entry :: "lazy_state \<Rightarrow> entry \<Rightarrow> lazy_state" where
  "lazy_entry s e =
     (case e of (t, intersecting) \<Rightarrow>
        if intersecting
        then s\<lparr>images := (images s)(t := \<lparr>img_src = Some (js_str (img_data_src (images s t))),
                                          img_data_src = None\<rparr>),
               lazy_observing := lazy_observing s - {t}\<rparr>
        else s)"

definition lazy_callback :: "entry list \<Rightarrow> lazy_state \<Rightarrow> lazy_state" where
  "lazy_callback es s = foldl lazy_entry s es"

text \<open>A batch only holds entries of targets observed when they were collected.\<close>

definition batch_ok :: "nat set \<Rightarrow> entry list \<Rightarrow> bool" where
  "batch_ok obs es \<longleftrightarrow> (\<forall>e \<in> set es. fst e \<in> obs)"

text \<open>Every observed image still carries its \<^verbatim>\<open>data-src\<close>.\<close>

definition lazy_inv :: "lazy_state \<Rightarrow> bool" where
  "lazy_inv s \<longleftrightarrow> (\<forall>i \<in> lazy_observing s. img_data_src (images s i) \<noteq> None)"

subsection \<open>Properties\<close>

lemma anim_callback_faded:
  "faded (anim_callback es s) t \<longleftrightarrow> faded s t \<or> (t, True) \<in> set es"
  unfolding anim_callback_def
  by (induction es arbitrary: s rule: rev_induct) (auto simp: anim_entry_def split: prod.splits)

lemma anim_callback_observing:
  "anim_observing (anim_callback es s) = anim_observing s - {t. (t, True) \<in> set es}"
  unfolding anim_callback_def
  by (induction es arbitrary: s rule: rev_induct) (auto simp: anim_entry_def split: prod.splits)

text \<open>C26: a scroll-animation batch gives the class \<^verbatim>\<open>fade-in-up\<close> to exactly the
  targets with an intersecting entry and stops observing exactly those; repeated entries
  do no harm.\<close>

theorem anim_callback_effect:
  "faded (anim_callback es s) t = (faded s t \<or> (t, True) \<in> set es) \<and>
   anim_observing (anim_callback es s) = anim_observing s - {t. (t, True) \<in> set es}"
  by (simp add: anim_callback_faded anim_callback_observing)

lemma lazy_entry_inv: "lazy_inv s \<Longrightarrow> lazy_inv (lazy_entry s e)"
  by (auto simp: lazy_inv_def lazy_entry_def split: prod.splits)

lemma lazy_entry_other:
  "fst e \<noteq> t \<Longrightarrow> images (lazy_entry s e) t = images s t"
  by (auto simp: lazy_entry_def split: prod.splits)

lemma lazy_callback_other:
  "t \<notin> fst ` set es \<Longrightarrow> images (lazy_callback es s) t = images s t"
  unfolding lazy_callback_def
  by (induction es arbitrary: s) (auto simp: lazy_entry_other)

lemma lazy_init_inv: "lazy_inv (lazy_init ids imgs)"
  by (simp add: lazy_inv_def lazy_init_def)

lemma lazy_callback_inv: "lazy_inv s \<Longrightarrow> lazy_inv (lazy_callback es s)"
  unfolding lazy_callback_def by (induction es arbitrary: s) (auto intro: lazy_entry_inv)

text \<open>C27: after any sequence of callback batches, every image the lazy loader still
  observes has its \<^verbatim>\<open>data-src\<close>.\<close>

theorem lazy_observed_have_data_src:
  "lazy_inv (fold lazy_callback batches (lazy_init ids imgs))"
proof -
  have "lazy_inv s \<Longrightarrow> lazy_inv (fold lazy_callback batches s)" for s
    by (induction batches arbitrary: s) (auto intro: lazy_callback_inv)
  then show ?thesis using lazy_init_inv by blast
qed

text \<open>C28: in a batch with one entry per target, an intersecting image gets its
  \<^verbatim>\<open>data-src\<close> as \<^verbatim>\<open>src\<close> and loses the attribute.\<close>

theorem lazy_loads_once:
  assumes "distinct (map fst es)" and "(t, True) \<in> set es"
    and "img_data_src (images s t) = Some v"
  shows "img_src (images (lazy_callback es s) t) = Some v \<and>
         img_data_src (images (lazy_callback es s) t) = None"
  using assms unfolding lazy_callback_def
proof (induction es arbitrary: s)
  case Nil
  then show ?case by simp
next
  case (Cons e es)
  show ?case
  proof (cases "e = (t, True)")
    case True
    with Cons.prems(1) have "t \<notin> fst ` set es" by auto
    then have "images (foldl lazy_entry (lazy_entry s e) es) t = images (lazy_entry s e) t"
      using lazy_callback_other [of t es "lazy_entry s e"] by (simp add: lazy_callback_def)
    moreover have "images (lazy_entry s e) t = \<lparr>img_src = Some v, img_data_src = None\<rparr>"
      using True Cons.prems(3) by (simp add: lazy_entry_def js_str_def)
    ultimately show ?thesis by simp
  next
    case False
    with Cons.prems(1,2) have "fst e \<noteq> t"
      by (metis (no_types, lifting) distinct.simps(2) image_eqI list.set_map list.simps(9) set_ConsD fst_conv prod.collapse)
    then have "img_data_src (images (lazy_entry s e) t) = Some v"
      using Cons.prems(3) lazy_entry_other by metis
    moreover from Cons.prems(1,2) False have "distinct (map fst es)" "(t, True) \<in> set es" by auto
    ultimately show ?thesis using Cons.IH by simp
  qed
qed

theorem lazy_loads_once_witness:
  "img_src (images (lazy_callback [(1, True), (2, False)]
      (lazy_init [1, 2] (\<lambda>_. \<lparr>img_src = None, img_data_src = Some ''a.jpg''\<rparr>))) 1) = Some ''a.jpg''"
  using lazy_loads_once [of "[(1, True), (2, False)]" 1
      "lazy_init [1, 2] (\<lambda>_. \<lparr>img_src = None, img_data_src = Some ''a.jpg''\<rparr>)" "''a.jpg''"]
  by (simp add: lazy_init_def)

lemma lazy_callback_append: "lazy_callback (xs @ ys) s = lazy_callback ys (lazy_callback xs s)"
  by (simp add: lazy_callback_def)

text \<open>Once an image has lost its \<^verbatim>\<open>data-src\<close>, every later intersecting entry
  of it sets \<^verbatim>\<open>src\<close> to the string \<^verbatim>\<open>"undefined"\<close>.\<close>

lemma lazy_callback_no_data_src:
  assumes "img_data_src (images s t) = None"
  shows "images (lazy_callback es s) t =
     (if (t, True) \<in> set es then \<lparr>img_src = Some ''undefined'', img_data_src = None\<rparr> else images s t)"
  using assms unfolding lazy_callback_def
proof (induction es arbitrary: s rule: rev_induct)
  case (snoc e es)
  then show ?case
    by (auto simp: lazy_entry_def js_str_def split: prod.splits if_splits)
qed simp

text \<open>C29: an image with two intersecting entries in one batch (it left and re-entered
  the viewport before the callback ran) is handled twice, because \<^verbatim>\<open>unobserve\<close> does
  not remove entries from the batch in hand: the second time \<^verbatim>\<open>data-src\<close> is gone and
  \<^verbatim>\<open>src\<close> becomes \<^verbatim>\<open>"undefined"\<close>, whatever the batch holds besides.\<close>

theorem lazy_repeated_entry_undefined:
  assumes "2 \<le> length (filter ((=) (t, True)) es)"
  shows "images (lazy_callback es s) t = \<lparr>img_src = Some ''undefined'', img_data_src = None\<rparr>"
proof -
  have "(t, True) \<in> set es" using assms by (metis filter_False le_zero_eq length_0_conv not_numeral_le_zero)
  then obtain xs ys where es: "es = xs @ (t, True) # ys" and xs: "(t, True) \<notin> set xs"
    by (meson split_list_first)
  have "filter ((=) (t, True)) xs = []" using xs by (auto simp: filter_empty_conv)
  then have "filter ((=) (t, True)) ys \<noteq> []" using assms unfolding es by auto
  then have "(t, True) \<in> set ys" by (auto simp: filter_empty_conv)
  moreover have "img_data_src (images (lazy_callback (xs @ [(t, True)]) s) t) = None"
    by (simp add: lazy_callback_def lazy_entry_def)
  ultimately show ?thesis
    using lazy_callback_no_data_src [of "lazy_callback (xs @ [(t, True)]) s" t ys]
    unfolding es lazy_callback_append [symmetric] by simp
qed

theorem lazy_repeated_entry_undefined_witness:
  "images (lazy_callback [(1, True), (2, True), (1, False), (1, True)]
      (lazy_init [1, 2] (\<lambda>_. \<lparr>img_src = None, img_data_src = Some ''a.jpg''\<rparr>))) 1 =
   \<lparr>img_src = Some ''undefined'', img_data_src = None\<rparr>"
  by (rule lazy_repeated_entry_undefined) simp

end
