(* ===== verification/Enhancements.thy ===== *)
theory Enhancements
  imports Prelude
begin

text \<open>
  The page enhancements of \<^verbatim>\<open>src/script.js\<close> that act on the document and the
  window rather than on the forms: smooth scrolling for internal links (lines 238 to
  256), the video background (lines 281 to 305), the skip link and the main-content
  target (lines 351 to 383), the window's error listener (lines 407 to 410) and the
  service worker registration (lines 412 to 422).

  The document is the list of the body's elements in document order; an element has
  an identity \<open>eid\<close>, its tag, its \<^verbatim>\<open>id\<close> and \<^verbatim>\<open>href\<close> attributes, its class
  list and its inline \<^verbatim>\<open>style.top\<close>. The window holds the document, the elements
  carrying the smooth-scroll click listener and the focus and blur listeners, the
  \<^verbatim>\<open>scrollIntoView\<close> calls made, the fragment or address navigated to, the
  console, the viewport width and the video state, and the environment's answers
  (whether autoplay is allowed, whether service workers exist and whether the
  registration succeeds).
\<close>

datatype js_error = SyntaxError string | NotAllowedError

datatype log_entry = LogError string js_error | LogInfo string

record elem =
  eid :: nat
  tag :: string
  id_attr :: "string option"
  href_attr :: "string option"
  class_names :: "string list"
  text_content :: string
  style_top :: "string option"

record window =
  doc :: "elem list"
  next_eid :: nat
  click_listeners :: "nat list"
  focus_listeners :: "nat list"
  scrolled_to :: "nat list"
  location :: "string option"
  console :: "log_entry list"
  inner_width :: int
  has_video :: bool
  video_filter :: "string option"
  resize_listener :: bool
  autoplay_allowed :: bool
  error_listener :: bool
  sw_supported :: bool
  load_listener :: bool
  sw_register_ok :: bool

subsection \<open>Selectors\<close>

text \<open>The attribute selector \<^verbatim>\<open>a[href^="#"]\<close> of line 240.\<close>

definition is_internal_link :: "elem \<Rightarrow> bool" where
  "is_internal_link el \<longleftrightarrow>
     tag el = ''a'' \<and> (case href_attr el of Some (c # _) \<Rightarrow> c = CHR ''#'' | _ \<Rightarrow> False)"

definition internal_links :: "elem list \<Rightarrow> nat list" where
  "internal_links d = map eid (filter is_internal_link d)"

text \<open>CSS identifiers (CSS Syntax Level 3, without escapes): a name starts with a
  letter, an underscore or a non-ASCII character, or with a hyphen followed by such a
  character or a second hyphen; the other characters of a name may also be digits and
  hyphens.\<close>

definition css_name_start :: "char \<Rightarrow> bool" where
  "css_name_start c \<longleftrightarrow>
     js_upper c \<or> (97 \<le> (of_char c :: nat) \<and> (of_char c :: nat) \<le> 122) \<or> c = CHR ''_'' \<or>
     128 \<le> (of_char c :: nat)"

definition css_name_char :: "char \<Rightarrow> bool" where
  "css_name_char c \<longleftrightarrow> css_name_start c \<or> js_digit c \<or> c = CHR ''-''"

fun css_ident_start :: "string \<Rightarrow> bool" where
  "css_ident_start (c # cs) =
     (css_name_start c \<or> (c = CHR ''-'' \<and> (case cs of d # _ \<Rightarrow> css_name_start d \<or> d = CHR ''-'' | [] \<Rightarrow> False)))"
| "css_ident_start [] = False"

definition css_ident :: "string \<Rightarrow> bool" where
  "css_ident s \<longleftrightarrow> css_ident_start s \<and> list_all css_name_char s"

text \<open>\<^verbatim>\<open>document.querySelector(sel)\<close> for the selectors an internal link's
  \<^verbatim>\<open>href\<close> can be: \<^verbatim>\<open>#\<close> followed by CSS name characters. When those form an
  identifier the selector is an ID selector and the result is the first element in
  document order with that \<^verbatim>\<open>id\<close>; otherwise (\<^verbatim>\<open>#\<close> alone, \<^verbatim>\<open>#1\<close>,
  \<^verbatim>\<open>#-\<close>, \<^verbatim>\<open>#-2\<close>) the selector does not parse and \<^verbatim>\<open>querySelector\<close> throws a
  \<^verbatim>\<open>SyntaxError\<close>. Other fragments (with \<^verbatim>\<open>.\<close>, spaces, \<^verbatim>\<open>:\<close>, escapes ...)
  are compound or complex selectors, outside the model: \<open>None\<close>.\<close>

definition query_hash :: "elem list \<Rightarrow> string \<Rightarrow> (js_error + nat option) option" where
  "query_hash d sel =
     (case sel of
        c # frag \<Rightarrow>
          if c = CHR ''#'' \<and> list_all css_name_char frag then
            Some (if css_ident_start frag
                  then Inr (map_option eid (find (\<lambda>el. id_attr el = Some frag) d))
                  else Inl (SyntaxError sel))
          else None
      | [] \<Rightarrow> None)"

subsection \<open>Error listener and service worker\<close>

text \<open>Lines 407 to 410: an exception that escapes an event listener fires the
  window's \<^verbatim>\<open>error\<close> event, whose listener logs it.\<close>

definition report_error :: "js_error \<Rightarrow> window \<Rightarrow> window" where
  "report_error err w =
     (if error_listener w then w\<lparr>console := console w @ [LogError ''JavaScript error:'' err]\<rparr> else w)"

text \<open>Evaluation of the script: the error listener (line 408) and, where
  \<^verbatim>\<open>'serviceWorker' in navigator\<close>, the load listener (lines 413 to 414).\<close>

definition script_eval :: "window \<Rightarrow> window" where
  "script_eval w = w\<lparr>error_listener := True, load_listener := sw_supported w\<rparr>"

text \<open>The window's \<^verbatim>\<open>load\<close> event (lines 414 to 421): the registration promise
  settles and one of the two messages is logged.\<close>

definition service_worker_load :: "window \<Rightarrow> window" where
  "service_worker_load w =
     (if load_listener w then
        w\<lparr>console := console w @
           [LogInfo (if sw_register_ok w then ''ServiceWorker registration successful''
                     else ''ServiceWorker registration failed'')]\<rparr>
      else w)"

subsection \<open>Smooth scrolling\<close>

text \<open>Lines 239 to 242: at \<^verbatim>\<open>DOMContentLoaded\<close> every element matching
  \<^verbatim>\<open>a[href^="#"]\<close> at that moment gets the click listener.\<close>

definition smooth_scroll_init :: "window \<Rightarrow> window" where
  "smooth_scroll_init w = w\<lparr>click_listeners := click_listeners w @ internal_links (doc w)\<rparr>"

text \<open>The listener of lines 243 to 254 on a link whose \<^verbatim>\<open>href\<close> is \<open>h\<close>:
  \<^verbatim>\<open>preventDefault()\<close>, then \<^verbatim>\<open>querySelector(h)\<close>; a found element is scrolled
  into view, a thrown error goes to the error listener.\<close>

definition smooth_scroll_handler :: "string \<Rightarrow> window \<Rightarrow> window option" where
  "smooth_scroll_handler h w =
     (case query_hash (doc w) h of
        None \<Rightarrow> None
      | Some (Inl err) \<Rightarrow> Some (report_error err w)
      | Some (Inr None) \<Rightarrow> Some w
      | Some (Inr (Some t)) \<Rightarrow> Some (w\<lparr>scrolled_to := scrolled_to w @ [t]\<rparr>))"

text \<open>A click on element \<open>e\<close>: a link with the listener runs it and its default
  action is prevented; any other link navigates to its \<^verbatim>\<open>href\<close>.\<close>

definition link_click :: "nat \<Rightarrow> window \<Rightarrow> window option" where
  "link_click e w =
     (case find (\<lambda>el. eid el = e) (doc w) of
        None \<Rightarrow> Some w
      | Some el \<Rightarrow>
          (case href_attr el of
             None \<Rightarrow> Some w
           | Some h \<Rightarrow>
               if e \<in> set (click_listeners w) then smooth_scroll_handler h w
               else Some (w\<lparr>location := Some h\<rparr>)))"

subsection \<open>Video background\<close>

text \<open>Lines 282 to 304 at \<^verbatim>\<open>DOMContentLoaded\<close>: \<^verbatim>\<open>video.play()\<close> (a refused
  autoplay rejects the promise and its handler logs the error), the blur filter below
  768 pixels and the resize listener.\<close>

definition video_init :: "window \<Rightarrow> window" where
  "video_init w =
     (if has_video w then
        (let w1 = (if autoplay_allowed w then w
                   else w\<lparr>console := console w @ [LogError ''Video autoplay prevented:'' NotAllowedError]\<rparr>);
             w2 = (if inner_width w1 < 768 then w1\<lparr>video_filter := Some ''blur(2px)''\<rparr> else w1)
         in w2\<lparr>resize_listener := True\<rparr>)
      else w)"

text \<open>A resize to \<open>width\<close>: the viewport changes, then the listener of lines 297 to
  303 runs if it was installed.\<close>

definition video_resize :: "int \<Rightarrow> window \<Rightarrow> window" where
  "video_resize width w =
     (let w1 = w\<lparr>inner_width := width\<rparr>
      in if resize_listener w1
         then w1\<lparr>video_filter := Some (if width < 768 then ''blur(2px)'' else ''none'')\<rparr>
         else w1)"

subsection \<open>Skip link and main content\<close>

definition skip_link :: "nat \<Rightarrow> elem" where
  "skip_link i =
     \<lparr>eid = i, tag = ''a'', id_attr = None, href_attr = Some ''#main-content'',
      class_names = [''skip-link''], text_content = ''Skip to main content'',
      style_top = Some ''-40px''\<rparr>"

text \<open>\<^verbatim>\<open>mainContent.id = 'main-content'\<close> on the first element of class
  \<^verbatim>\<open>main-content\<close>, if there is one (lines 380 to 383).\<close>

fun set_main_content_id :: "elem list \<Rightarrow> elem list" where
  "set_main_content_id [] = []"
| "set_main_content_id (el # els) =
     (if ''main-content'' \<in> set (class_names el) then el\<lparr>id_attr := Some ''main-content''\<rparr> # els
      else el # set_main_content_id els)"

text \<open>Lines 352 to 383: the skip link is created with its focus and blur
  listeners, inserted as the body's first child, and the main content gets its
  \<^verbatim>\<open>id\<close>.\<close>

definition skip_link_init :: "window \<Rightarrow> window" where
  "skip_link_init w =
     w\<lparr>doc := set_main_content_id (skip_link (next_eid w) # doc w),
       next_eid := Suc (next_eid w),
       focus_listeners := focus_listeners w @ [next_eid w]\<rparr>"

definition set_top :: "nat \<Rightarrow> string \<Rightarrow> elem list \<Rightarrow> elem list" where
  "set_top e v d = map (\<lambda>el. if eid el = e then el\<lparr>style_top := Some v\<rparr> else el) d"

text \<open>The focus listener (lines 369 to 371) and the blur listener (lines 373 to 375).\<close>

definition skip_focus :: "nat \<Rightarrow> window \<Rightarrow> window" where
  "skip_focus e w = (if e \<in> set (focus_listeners w) then w\<lparr>doc := set_top e ''0'' (doc w)\<rparr> else w)"

definition skip_blur :: "nat \<Rightarrow> window \<Rightarrow> window" where
  "skip_blur e w = (if e \<in> set (focus_listeners w) then w\<lparr>doc := set_top e ''-40px'' (doc w)\<rparr> else w)"

subsection \<open>Page life cycle\<close>

text \<open>\<^verbatim>\<open>DOMContentLoaded\<close> runs the listeners in the order the script added them;
  of those that touch this state, smooth scrolling (line 239) comes before the video
  (line 282) and before the accessibility listener (line 338) that creates the skip
  link. The other listeners are modelled in their own theories and do not touch this
  state.\<close>

definition dom_content_loaded :: "window \<Rightarrow> window" where
  "dom_content_loaded w = skip_link_init (video_init (smooth_scroll_init w))"

datatype enh_event = LinkClick nat | Resize int | Focus nat | Blur nat | WindowLoad

fun enh_step :: "enh_event \<Rightarrow> window \<Rightarrow> window option" where
  "enh_step (LinkClick e) w = link_click e w"
| "enh_step (Resize width) w = Some (video_resize width w)"
| "enh_step (Focus e) w = Some (skip_focus e w)"
| "enh_step (Blur e) w = Some (skip_blur e w)"
| "enh_step WindowLoad w = Some (service_worker_load w)"

fun enh_run :: "enh_event list \<Rightarrow> window \<Rightarrow> window option" where
  "enh_run [] w = Some w"
| "enh_run (ev # evs) w = (case enh_step ev w of None \<Rightarrow> None | Some w' \<Rightarrow> enh_run evs w')"

text \<open>Well-formedness of the window: element identities are distinct and below the
  counter, and every listener sits on an element of the document.\<close>

definition window_wf :: "window \<Rightarrow> bool" where
  "window_wf w \<longleftrightarrow>
     distinct (map eid (doc w)) \<and> list_all (\<lambda>el. eid el < next_eid w) (doc w) \<and>
     set (click_listeners w) \<subseteq> set (map eid (doc w)) \<and>
     set (focus_listeners w) \<subseteq> set (map eid (doc w))"

text \<open>A page used by the examples: a logo link to \<^verbatim>\<open>#\<close>, the main content, a
  link to \<^verbatim>\<open>#services\<close> and its section; wide viewport, video present.\<close>

definition sample_window :: window where
  "sample_window =
     \<lparr>doc = [\<lparr>eid = 0, tag = ''a'', id_attr = None, href_attr = Some ''#'', class_names = [''logo''],
              text_content = ''MGIC'', style_top = None\<rparr>,
            \<lparr>eid = 1, tag = ''main'', id_attr = None, href_attr = None, class_names = [''main-content''],
              text_content = [], style_top = None\<rparr>,
            \<lparr>eid = 2, tag = ''a'', id_attr = None, href_attr = Some ''#services'', class_names = [],
              text_content = ''Services'', style_top = None\<rparr>,
            \<lparr>eid = 3, tag = ''section'', id_attr = Some ''services'', href_attr = None, class_names = [],
              text_content = [], style_top = None\<rparr>],
      next_eid = 4, click_listeners = [], focus_listeners = [], scrolled_to = [], location = None,
      console = [], inner_width = 1024, has_video = True, video_filter = None,
      resize_listener = False, autoplay_allowed = True, error_listener = False,
      sw_supported = True, load_listener = False, sw_register_ok = True\<rparr>"

definition resizes :: "enh_event list \<Rightarrow> int list" where
  "resizes evs = concat (map (\<lambda>ev. case ev of Resize width \<Rightarrow> [width] | _ \<Rightarrow> []) evs)"

text \<open>The \<^verbatim>\<open>style.top\<close> the focus and blur listeners leave on element \<open>e\<close>
  after a sequence of events, starting from \<open>v\<close>: the last focus or blur of \<open>e\<close>
  decides.\<close>

definition skip_top_after :: "nat \<Rightarrow> enh_event list \<Rightarrow> string \<Rightarrow> string" where
  "skip_top_after e evs v =
     fold (\<lambda>ev v. case ev of Focus e' \<Rightarrow> if e' = e then ''0'' else v
                           | Blur e' \<Rightarrow> if e' = e then ''-40px'' else v
                           | _ \<Rightarrow> v) evs v"

subsection \<open>Properties\<close>

lemma map_eid_set_main_content_id [simp]: "map eid (set_main_content_id d) = map eid d"
  by (induction d) auto

lemma map_eid_set_top [simp]: "map eid (set_top e v d) = map eid d"
  by (induction d) (auto simp: set_top_def)

lemma list_all_eid_iff: "list_all (\<lambda>el. eid el < n) d \<longleftrightarrow> (\<forall>i \<in> set (map eid d). i < n)"
  by (auto simp: list_all_iff)

lemma window_wf_doc_eids:
  assumes "map eid d' = map eid (doc w)"
  shows "window_wf (w\<lparr>doc := d'\<rparr>) \<longleftrightarrow> window_wf w"
  using assms by (simp add: window_wf_def list_all_eid_iff)

lemma internal_links_eids: "set (internal_links d) \<subseteq> set (map eid d)"
  by (auto simp: internal_links_def)

lemma dom_content_loaded_fields:
  "click_listeners (dom_content_loaded w) = click_listeners w @ internal_links (doc w)"
  "doc (dom_content_loaded w) = set_main_content_id (skip_link (next_eid w) # doc w)"
  "next_eid (dom_content_loaded w) = Suc (next_eid w)"
  "focus_listeners (dom_content_loaded w) = focus_listeners w @ [next_eid w]"
  "error_listener (dom_content_loaded w) = error_listener w"
  by (simp_all add: dom_content_loaded_def skip_link_init_def video_init_def
                    smooth_scroll_init_def Let_def)

lemma dom_content_loaded_wf: "window_wf w \<Longrightarrow> window_wf (dom_content_loaded w)"
  using internal_links_eids [of "doc w"]
  by (auto simp: window_wf_def dom_content_loaded_fields list_all_eid_iff skip_link_def)

lemma report_error_wf: "window_wf (report_error err w) = window_wf w"
  by (simp add: report_error_def window_wf_def)

lemma link_click_wf: "link_click e w = Some w' \<Longrightarrow> window_wf w' = window_wf w"
  by (auto simp: link_click_def smooth_scroll_handler_def window_wf_def report_error_def
           split: option.splits if_splits sum.splits)

lemma step_wf [simp]:
  "window_wf (video_resize x w) = window_wf w"
  "window_wf (service_worker_load w) = window_wf w"
  by (simp_all add: video_resize_def Let_def service_worker_load_def window_wf_def)

lemma skip_focus_blur_wf [simp]:
  "window_wf (skip_focus e w) = window_wf w"
  "window_wf (skip_blur e w) = window_wf w"
  by (simp_all add: skip_focus_def skip_blur_def window_wf_doc_eids)

lemma enh_step_wf: "enh_step ev w = Some w' \<Longrightarrow> window_wf w' = window_wf w"
  by (cases ev) (auto simp: link_click_wf)

lemma enh_run_wf: "enh_run evs w = Some w' \<Longrightarrow> window_wf w' = window_wf w"
  by (induction evs arbitrary: w) (auto simp: enh_step_wf split: option.splits)

lemma enh_step_video:
  "enh_step ev w = Some w' \<Longrightarrow>
   resize_listener w' = resize_listener w \<and>
   video_filter w' = (case ev of
                        Resize x \<Rightarrow> if resize_listener w
                                    then Some (if x < 768 then ''blur(2px)'' else ''none'')
                                    else video_filter w
                      | _ \<Rightarrow> video_filter w)"
  by (cases ev)
     (auto simp: link_click_def smooth_scroll_handler_def report_error_def video_resize_def Let_def
                 skip_focus_def skip_blur_def service_worker_load_def
           split: option.splits if_splits sum.splits)

lemma resizes_simps [simp]:
  "resizes [] = []"
  "resizes (Resize x # evs) = x # resizes evs"
  "(\<And>x. ev \<noteq> Resize x) \<Longrightarrow> resizes (ev # evs) = resizes evs"
  by (auto simp: resizes_def split: enh_event.splits)

lemma enh_run_video:
  "enh_run evs w = Some w' \<Longrightarrow>
   resize_listener w' = resize_listener w \<and>
   video_filter w' = (if resize_listener w \<and> resizes evs \<noteq> []
                      then Some (if last (resizes evs) < 768 then ''blur(2px)'' else ''none'')
                      else video_filter w)"
proof (induction evs arbitrary: w)
  case (Cons ev evs)
  then obtain w1 where s: "enh_step ev w = Some w1" and r: "enh_run evs w1 = Some w'"
    by (auto split: option.splits)
  show ?case
    using Cons.IH [OF r] enh_step_video [OF s]
    by (cases ev) auto
qed simp

lemma dom_content_loaded_video:
  "resize_listener (dom_content_loaded w) = (resize_listener w \<or> has_video w)"
  "video_filter (dom_content_loaded w) =
     (if has_video w \<and> inner_width w < 768 then Some ''blur(2px)'' else video_filter w)"
  by (simp_all add: dom_content_loaded_def skip_link_init_def video_init_def smooth_scroll_init_def Let_def)

lemma find_set_main_content_skip:
  "find P (set_main_content_id (skip_link i # d)) = (if P (skip_link i) then Some (skip_link i)
     else find P (set_main_content_id d))"
  by (simp add: skip_link_def)

text \<open>C31: a click on an internal link whose \<^verbatim>\<open>href\<close> is \<^verbatim>\<open>#\<close> followed by name
  characters that do not start an identifier (\<^verbatim>\<open>href="#"\<close>, \<^verbatim>\<open>#1st\<close>) has its
  default action prevented, then \<^verbatim>\<open>querySelector\<close> throws a \<^verbatim>\<open>SyntaxError\<close>: the page
  neither navigates nor scrolls, and the only effect is the error listener's console
  entry.\<close>

theorem hash_link_syntax_error:
  assumes "find (\<lambda>el. eid el = e) (doc w) = Some el" and "href_attr el = Some (CHR ''#'' # frag)"
    and "e \<in> set (click_listeners w)" and "list_all css_name_char frag"
    and "\<not> css_ident_start frag" and "error_listener w"
  shows "link_click e w =
           Some (w\<lparr>console := console w @ [LogError ''JavaScript error:'' (SyntaxError (CHR ''#'' # frag))]\<rparr>)"
  using assms
  by (simp add: link_click_def smooth_scroll_handler_def query_hash_def report_error_def)

theorem hash_link_syntax_error_witness:
  "link_click 0 (dom_content_loaded (script_eval sample_window)) =
     Some ((dom_content_loaded (script_eval sample_window))\<lparr>console :=
             [LogError ''JavaScript error:'' (SyntaxError ''#'')]\<rparr>)"
proof -
  let ?w = "dom_content_loaded (script_eval sample_window)"
  have f: "find (\<lambda>el. eid el = 0) (doc ?w) =
    Some \<lparr>eid = 0, tag = ''a'', id_attr = None, href_attr = Some ''#'', class_names = [''logo''],
          text_content = ''MGIC'', style_top = None\<rparr>"
    by (simp add: dom_content_loaded_fields script_eval_def sample_window_def skip_link_def)
  have l: "(0::nat) \<in> set (click_listeners ?w)"
    by (simp add: dom_content_loaded_fields script_eval_def sample_window_def internal_links_def
                  is_internal_link_def)
  have e: "error_listener ?w" by (simp add: dom_content_loaded_fields script_eval_def)
  have c: "console ?w = []"
    by (simp add: dom_content_loaded_def skip_link_init_def video_init_def smooth_scroll_init_def
                  script_eval_def sample_window_def)
  show ?thesis
    using hash_link_syntax_error [OF f _ l _ _ e, of "[]"] c by simp
qed

text \<open>C32: a click on an internal link whose fragment is an identifier scrolls the
  first element with that \<^verbatim>\<open>id\<close> into view and leaves the address unchanged; with no
  such element nothing happens.\<close>

theorem hash_link_scrolls:
  assumes "find (\<lambda>el. eid el = e) (doc w) = Some el" and "href_attr el = Some (CHR ''#'' # frag)"
    and "e \<in> set (click_listeners w)" and "css_ident frag"
  shows "link_click e w =
           Some (case find (\<lambda>t. id_attr t = Some frag) (doc w) of
                   None \<Rightarrow> w
                 | Some t \<Rightarrow> w\<lparr>scrolled_to := scrolled_to w @ [eid t]\<rparr>)"
  using assms
  by (simp add: link_click_def smooth_scroll_handler_def query_hash_def css_ident_def
           split: option.splits)

theorem hash_link_scrolls_witness:
  "link_click 2 (dom_content_loaded sample_window) =
     Some ((dom_content_loaded sample_window)\<lparr>scrolled_to := [3]\<rparr>)"
proof -
  let ?w = "dom_content_loaded sample_window"
  have f: "find (\<lambda>el. eid el = 2) (doc ?w) =
    Some \<lparr>eid = 2, tag = ''a'', id_attr = None, href_attr = Some ''#services'', class_names = [],
          text_content = ''Services'', style_top = None\<rparr>"
    by (simp add: dom_content_loaded_fields sample_window_def skip_link_def)
  have l: "(2::nat) \<in> set (click_listeners ?w)"
    by (simp add: dom_content_loaded_fields sample_window_def internal_links_def is_internal_link_def)
  have i: "css_ident ''services''" by code_simp
  have t: "find (\<lambda>t. id_attr t = Some ''services'') (doc ?w) =
    Some \<lparr>eid = 3, tag = ''section'', id_attr = Some ''services'', href_attr = None, class_names = [],
          text_content = [], style_top = None\<rparr>"
    by (simp add: dom_content_loaded_fields sample_window_def skip_link_def)
  have s: "scrolled_to ?w = []"
    by (simp add: dom_content_loaded_def skip_link_init_def video_init_def smooth_scroll_init_def
                  sample_window_def Let_def)
  show ?thesis
    using hash_link_scrolls [OF f _ l i] t s by simp
qed

text \<open>C33: the listeners of \<^verbatim>\<open>DOMContentLoaded\<close> run in source order, so the skip
  link, created by the accessibility listener after the smooth-scroll listener has
  collected the internal links, has no smooth-scroll listener: a click on it follows the
  link to \<^verbatim>\<open>#main-content\<close> by the browser's default action.\<close>

theorem skip_link_default_navigation:
  assumes "window_wf w"
  shows "next_eid w \<notin> set (click_listeners (dom_content_loaded w)) \<and>
         link_click (next_eid w) (dom_content_loaded w) =
           Some ((dom_content_loaded w)\<lparr>location := Some ''#main-content''\<rparr>)"
proof -
  have "\<forall>i \<in> set (click_listeners w @ internal_links (doc w)). i < next_eid w"
    using assms internal_links_eids [of "doc w"] by (auto simp: window_wf_def list_all_iff)
  then have n: "next_eid w \<notin> set (click_listeners (dom_content_loaded w))"
    by (auto simp: dom_content_loaded_fields)
  have "find (\<lambda>el. eid el = next_eid w) (doc (dom_content_loaded w)) = Some (skip_link (next_eid w))"
    by (simp add: dom_content_loaded_fields find_set_main_content_skip) (simp add: skip_link_def)
  with n show ?thesis by (simp add: link_click_def skip_link_def)
qed

theorem skip_link_default_navigation_witness:
  "link_click 4 (dom_content_loaded sample_window) =
     Some ((dom_content_loaded sample_window)\<lparr>location := Some ''#main-content''\<rparr>)"
proof -
  have "window_wf sample_window" by (simp add: window_wf_def sample_window_def)
  then show ?thesis using skip_link_default_navigation [of sample_window]
    by (simp add: sample_window_def)
qed

text \<open>C34: with the video present, after the page has loaded and any interleaving
  of clicks, focus changes, resizes and the load event, the video's filter is the blur
  exactly when the last width the listener saw is below 768 pixels; a wide viewport at
  load leaves the filter as it was.\<close>

theorem video_filter_tracks_width:
  assumes "enh_run evs (dom_content_loaded w) = Some w'" and "\<not> resize_listener w"
  shows "video_filter w' =
           (if has_video w \<and> resizes evs \<noteq> []
            then Some (if last (resizes evs) < 768 then ''blur(2px)'' else ''none'')
            else if has_video w \<and> inner_width w < 768 then Some ''blur(2px)''
            else video_filter w)"
  using enh_run_video [OF assms(1)] assms(2) by (simp add: dom_content_loaded_video)

theorem video_filter_tracks_width_witness:
  "\<exists>w'. enh_run [Resize 500, LinkClick 2, Resize 1200] (dom_content_loaded sample_window) = Some w' \<and>
        video_filter w' = Some ''none''"
proof -
  have "enh_run [Resize 500, LinkClick 2, Resize 1200] (dom_content_loaded sample_window) \<noteq> None"
    by code_simp
  then obtain w' where r: "enh_run [Resize 500, LinkClick 2, Resize 1200] (dom_content_loaded sample_window) = Some w'"
    by blast
  have "\<not> resize_listener sample_window" by (simp add: sample_window_def)
  then show ?thesis using video_filter_tracks_width [OF r] r by (simp add: sample_window_def)
qed

text \<open>Loading the page and any run of events keep the window well formed: element
  identities stay distinct and below the counter (the skip link gets a fresh one) and
  every click, focus and blur listener sits on an element of the document.\<close>

lemma enh_run_window_wf:
  assumes "window_wf w" and "enh_run evs (dom_content_loaded w) = Some w'"
  shows "window_wf w'"
  using enh_run_wf [OF assms(2)] dom_content_loaded_wf [OF assms(1)] by simp

lemma find_set_top:
  "find (\<lambda>el. eid el = e) (set_top e' v d) =
     map_option (\<lambda>el. if e' = e then el\<lparr>style_top := Some v\<rparr> else el) (find (\<lambda>el. eid el = e) d)"
  by (induction d) (auto simp: set_top_def)

lemma enh_step_skip_top:
  assumes "enh_step ev w = Some w'" and "e \<in> set (focus_listeners w)"
    and "map_option style_top (find (\<lambda>el. eid el = e) (doc w)) = Some (Some v)"
  shows "e \<in> set (focus_listeners w') \<and>
         map_option style_top (find (\<lambda>el. eid el = e) (doc w')) = Some (Some (skip_top_after e [ev] v))"
  using assms
  by (cases ev)
     (auto simp: link_click_def smooth_scroll_handler_def report_error_def video_resize_def Let_def
                 skip_focus_def skip_blur_def service_worker_load_def skip_top_after_def
                 find_set_top option.map_comp comp_def
           split: option.splits if_splits sum.splits)

lemma enh_run_skip_top:
  assumes "enh_run evs w = Some w'" and "e \<in> set (focus_listeners w)"
    and "map_option style_top (find (\<lambda>el. eid el = e) (doc w)) = Some (Some v)"
  shows "map_option style_top (find (\<lambda>el. eid el = e) (doc w')) = Some (Some (skip_top_after e evs v))"
  using assms
proof (induction evs arbitrary: w v)
  case Nil
  then show ?case by (simp add: skip_top_after_def)
next
  case (Cons ev evs)
  then obtain w1 where s: "enh_step ev w = Some w1" and r: "enh_run evs w1 = Some w'"
    by (auto split: option.splits)
  from enh_step_skip_top [OF s Cons.prems(2,3)] Cons.IH [OF r] show ?case
    by (simp add: skip_top_after_def)
qed

text \<open>C35: after the page has loaded, whatever events follow, the skip link sits at
  \<^verbatim>\<open>top: 0\<close> exactly when the last focus or blur it received was a focus, and at
  \<^verbatim>\<open>-40px\<close> (off screen) otherwise: the focus listener shows it, the blur listener
  hides it again.\<close>

theorem skip_link_top_follows_focus:
  assumes "enh_run evs (dom_content_loaded w) = Some w'"
  shows "map_option style_top (find (\<lambda>el. eid el = next_eid w) (doc w')) =
           Some (Some (skip_top_after (next_eid w) evs ''-40px''))"
proof -
  have "find (\<lambda>el. eid el = next_eid w) (doc (dom_content_loaded w)) = Some (skip_link (next_eid w))"
    by (simp add: dom_content_loaded_fields find_set_main_content_skip) (simp add: skip_link_def)
  then have "map_option style_top (find (\<lambda>el. eid el = next_eid w) (doc (dom_content_loaded w))) =
      Some (Some ''-40px'')"
    by (simp add: skip_link_def)
  moreover have "next_eid w \<in> set (focus_listeners (dom_content_loaded w))"
    by (simp add: dom_content_loaded_fields)
  ultimately show ?thesis using enh_run_skip_top [OF assms] by blast
qed

theorem skip_link_top_follows_focus_witness:
  "\<exists>w'. enh_run [Focus 4, LinkClick 2, Blur 0, Resize 500] (dom_content_loaded sample_window) = Some w' \<and>
        map_option style_top (find (\<lambda>el. eid el = 4) (doc w')) = Some (Some ''0'')"
proof -
  have "enh_run [Focus 4, LinkClick 2, Blur 0, Resize 500] (dom_content_loaded sample_window) \<noteq> None"
    by code_simp
  then obtain w' where r: "enh_run [Focus 4, LinkClick 2, Blur 0, Resize 500] (dom_content_loaded sample_window) = Some w'"
    by blast
  have "skip_top_after 4 [Focus 4, LinkClick 2, Blur 0, Resize 500] ''-40px'' = ''0''"
    by (simp add: skip_top_after_def)
  then show ?thesis using skip_link_top_follows_focus [OF r] r by (simp add: sample_window_def)
qed

end
