(* ===== verification/Spec2Isabelle.thy ===== *)
theory Spec2Isabelle
  imports Forms Navigation PhoneFormat Observers Enhancements
begin

text \<open>
  \<^bold>\<open>A verification development for \<^verbatim>\<open>src/script.js\<close>.\<close>
  The repository is one browser script of 422 lines that wires a static site: the
  mobile navigation (lines 1 to 29), the appointment and contact forms with their
  validators (lines 31 to 152), transient message popups (lines 154 to 236), smooth
  scrolling, scroll animations, a video filter, date and phone field enhancements,
  accessibility attributes, lazy images, error logging and a service worker
  registration. Every behaviour is a reaction to a DOM event run to completion by the
  single-threaded event loop; the only deferred work is the five-second popup timer.

  \<^bold>\<open>Theories.\<close>
  \<^item> \<open>Prelude\<close>: the JavaScript string operations the script calls
    (\<^verbatim>\<open>trim\<close>, \<^verbatim>\<open>toLowerCase\<close>, \<^verbatim>\<open>replace\<close> with a string pattern, the
    classes \<^verbatim>\<open>\s\<close>, \<^verbatim>\<open>\d\<close>, \<^verbatim>\<open>[A-Z]\<close>) on 8-bit characters read as Latin-1
    code units, and \<^verbatim>\<open>Object.fromEntries\<close> (\<open>from_entries\<close>: the last entry of a
    name wins).
  \<^item> \<open>Regex\<close>: the two anchored regex literals \<^verbatim>\<open>emailRegex\<close> (line 144) and
    \<^verbatim>\<open>phoneRegex\<close> (line 149) as terms of a small pattern syntax \<open>rx\<close>, their
    languages \<open>lang\<close>, and \<^verbatim>\<open>RegExp.prototype.test\<close> as a Brzozowski-derivative
    matcher \<open>rx_matches\<close>, proved to decide the language (\<open>rx_matches_lang\<close>);
    the email pattern's language is the shape the specification describes
    (\<open>email_shape\<close>).
  \<^item> \<open>Dates\<close>: \<^verbatim>\<open>new Date(s)\<close> on a date input's \<^verbatim>\<open>YYYY-MM-DD\<close> value (UTC
    midnight, the invalid date as \<open>None\<close>), \<^verbatim>\<open>setHours(0,0,0,0)\<close> (local midnight
    under the clock's fixed offset), the comparison of dates (false on \<^verbatim>\<open>NaN\<close>) and
    the \<^verbatim>\<open>min\<close> attribute of lines 312 to 317 (\<^verbatim>\<open>toISOString\<close> of now plus a day;
    the \<^verbatim>\<open>if (dateInput)\<close> guard of line 311 is the page's markup and not modelled).
    The era-based calendar conversion is analysed by splitting the day of an era into
    centuries, four-year cycles, years and the day of the year (\<open>era_decomp\<close>,
    \<open>yoe_doy\<close>, \<open>month_of_doy\<close>).
  \<^item> \<open>Validator\<close>: \<^verbatim>\<open>validateAppointmentForm\<close> and \<^verbatim>\<open>validateContactForm\<close>
    as pure decisions \<open>validate_appointment\<close> and \<open>validate_contact\<close> returning the
    first failing check (\<open>verr\<close>), in the code's order: the required-field loop
    (\<open>first_missing\<close>), email, phone digit count, past date, consent; and the texts of
    the error popups (\<open>error_message\<close>).
  \<^item> \<open>Presenter\<close>: \<^verbatim>\<open>showMessage\<close> and its wrappers, the close listener and the
    timer callback over an explicit document state (attached popups in document order,
    style elements, pending timers, identity counter); \<open>presenter_step\<close> is one event
    of the loop and \<open>fire_due\<close> runs the timers due at a time; \<open>event_loop\<close> runs
    them as the browser does, one task per callback, as a \<open>while_option\<close> loop.
  \<^item> \<open>Forms\<close>: \<^verbatim>\<open>new FormData(form)\<close> over a list of controls,
    \<^verbatim>\<open>form.reset()\<close>, the validators with their error popups
    (\<open>validateAppointmentForm\<close>, \<open>validateContactForm\<close>) and the submit listeners
    (\<open>appointment_submit\<close>, \<open>contact_submit\<close>), composed as the script composes them.
  \<^item> \<open>Navigation\<close>: the menu and hamburger \<^verbatim>\<open>active\<close> classes and the
    \<^verbatim>\<open>aria-expanded\<close> attribute under clicks classified by target, with the bubbling
    order of the listeners (\<open>nav_click\<close>).
  \<^item> \<open>PhoneFormat\<close>: the \<^verbatim>\<open>input\<close> listener of telephone fields (\<open>format_phone\<close>),
    with the two non-global \<^verbatim>\<open>replace\<close> calls as leftmost-match rewrites.
  \<^item> \<open>Observers\<close>: the two \<^verbatim>\<open>IntersectionObserver\<close> callbacks (scroll
    animation and lazy images) over batches of entries, with \<^verbatim>\<open>unobserve\<close> removing a
    target from the observed set but not from the batch in hand.
  \<^item> \<open>Enhancements\<close>: the window and document state the remaining listeners
    touch (\<open>window\<close>, \<open>elem\<close>): smooth scrolling (\<open>smooth_scroll_init\<close>,
    \<open>link_click\<close>, with \<^verbatim>\<open>querySelector\<close> on an internal link's \<^verbatim>\<open>href\<close> as
    \<open>query_hash\<close>: an ID selector or a \<^verbatim>\<open>SyntaxError\<close>), the video background
    (\<open>video_init\<close>, \<open>video_resize\<close>), the skip link and the main-content id
    (\<open>skip_link_init\<close>, \<open>skip_focus\<close>, \<open>skip_blur\<close>), the error listener
    (\<open>report_error\<close>) and the service worker (\<open>script_eval\<close>,
    \<open>service_worker_load\<close>); \<open>dom_content_loaded\<close> runs the listeners in source
    order and \<open>enh_run\<close> any sequence of clicks, resizes, focus changes and the load
    event.
  \<^item> this theory: the page as a whole (\<open>page\<close>, \<open>page_step\<close>, \<open>page_run\<close>), where
    submissions, popup clicks, timer runs, navigation clicks and typing interleave in any
    order; the user's typing and ticking (\<open>type_into\<close>, \<open>toggle_box\<close>) are the
    environment, the formatting of telephone fields is the script's listener. Its
    lemmas lift the popup invariant to the page and evaluate a complete booking
    session; the properties of the development are stated in the component theories.

  \<^bold>\<open>What is proved.\<close>
  The validators are characterised on every branch: acceptance exactly under all checks
  (\<open>validate_appointment_None_iff\<close>, \<open>validate_contact_None_iff\<close>), the first
  missing field in declared order, and the past-date, consent and contact email error
  branches. The email regex equals its declarative shape. The date check is
  characterised by day numbers and the time zone offset; the \<^verbatim>\<open>min\<close> attribute's
  string parses back to its day, names local tomorrow exactly when the UTC and local
  dates agree, and every date it admits passes the date check. The popup state keeps an
  invariant (at most one popup, at most one style element, every attached popup has a
  pending timer) under any interleaving; a popup lives until exactly the timer run at
  creation plus 5000 ms; stale timers and close clicks are harmless and idempotent.
  The form data reads checkboxes as presence flags; a submission of either form either
  keeps the form and shows the failure or resets it and shows the success popup. The
  navigation classes agree; \<^verbatim>\<open>aria-expanded\<close> is truthful while no link or
  outside click closes the menu and wrong after any such close of an open menu. The
  phone formatter is idempotent, never changes the validity of the phone, and yields
  values the unused \<^verbatim>\<open>phoneRegex\<close> would reject. An animation batch fades exactly
  its intersecting targets; observed images keep their \<^verbatim>\<open>data-src\<close>, a batch with
  one entry per image loads each intersecting image from it, and two intersecting
  entries of one image leave \<^verbatim>\<open>src="undefined"\<close>. Internal links scroll to their
  target or, for fragments that are not identifiers, throw; the skip link is never
  smooth-scrolled and is on screen exactly while focused; the video filter follows the
  last width. Supporting lemmas: the derivative matcher decides the pattern language
  (\<open>rx_matches_lang\<close>); the calendar conversion yields valid dates that convert back
  (\<open>civil_from_days_bounds\<close>, \<open>days_from_civil_civil_from_days\<close>); the
  one-task-at-a-time timer loop terminates in the state \<open>fire_due\<close> gives
  (\<open>event_loop_fire_due\<close>); the window stays well formed (\<open>enh_run_window_wf\<close>).

  \<^bold>\<open>Findings.\<close>
  In a time zone behind UTC today's date is rejected as a past date
  (\<open>date_before_today_iff\<close>); an unparsable date passes the date check; the
  \<^verbatim>\<open>min\<close> attribute is a UTC date and may be today or the day after tomorrow;
  \<^verbatim>\<open>phoneRegex\<close> is never used; the contact form's missing-name message has a double
  space; \<^verbatim>\<open>aria-expanded\<close> stays \<^verbatim>\<open>"true"\<close> when the menu is closed by a link or
  an outside click; a phone field of six to nine digits loses its formatting;
  \<^verbatim>\<open>form.reset()\<close> restores defaults rather than clearing fields; an image
  with two intersecting entries in one batch gets \<^verbatim>\<open>src="undefined"\<close>; a click on a
  link with \<^verbatim>\<open>href="#"\<close> throws a \<^verbatim>\<open>SyntaxError\<close> from \<^verbatim>\<open>querySelector\<close>
  (\<open>hash_link_syntax_error\<close>); the skip link, created after the smooth-scroll listener
  collected the internal links, jumps instead of scrolling
  (\<open>skip_link_default_navigation\<close>).

  \<^bold>\<open>Bounds and assumptions.\<close>
  No loop needs fuel: every recursion is structural (the required-field loop, the
  derivative matcher over the input, the leftmost-match scans, the event runs); the
  timer loop is a \<open>while_option\<close> whose termination is proved with the number of
  pending timers as measure. Time is
  an \<open>int\<close> of milliseconds; the time zone offset is fixed during an event and less than
  a day in magnitude, which every real zone satisfies (at most 14 hours); daylight
  saving changes are not modelled. Characters above U+00FF are not represented. Date
  strings other than a valid \<^verbatim>\<open>YYYY-MM-DD\<close> are read as the invalid date, as
  ECMA-262 prescribes for illegal element values; some engines are lenient (V8
  reportedly rolls \<^verbatim>\<open>2023-02-29\<close> over to 1 March), which matters only for values
  a date input cannot submit. The page has no
  other element of class \<^verbatim>\<open>message-popup\<close>, and its markup starts without the
  \<^verbatim>\<open>active\<close> class. The calendar round trip is stated for the years 0 to 9999,
  where \<^verbatim>\<open>toISOString\<close> prints four-digit years that the date-only format parses.
  An internal link's \<^verbatim>\<open>href\<close> is modelled when it is \<^verbatim>\<open>#\<close> followed by CSS
  name characters; other fragments form compound selectors and make the click's
  outcome \<open>None\<close> (outside the model). The video's autoplay rejection is logged when
  the listener runs, although the promise settles later; the service worker's
  registration outcome is an input of the window.

  \<^bold>\<open>Not modelled.\<close>
  The HTML injected by \<^verbatim>\<open>innerHTML\<close> and the CSS text of the popup and the skip
  link (only their effect on the state is modelled), \<^verbatim>\<open>console\<close> output other than as
  a list of entries, and the scrolling itself (\<^verbatim>\<open>scrollIntoView\<close> is recorded, not
  animated). The order of calendar dates and an inductive step relation of the page with
  reachability are not developed: the properties over runs are stated with explicit
  event sequences.\<close>

record page =
  appt_form :: form
  contact_form :: form
  popups :: presenter
  nav :: nav_state

datatype page_event =
    SubmitAppointment
  | SubmitContact
  | PopupClose nat
  | TimersDue
  | NavClick click_target
  | TypeAppointment string string
  | ToggleAppointment string
  | TypeContact string string

definition type_into :: "string \<Rightarrow> string \<Rightarrow> form \<Rightarrow> form" where
  "type_into n v f =
     map (\<lambda>c. if cname c = n then
                (case ckind c of
                   TextControl \<Rightarrow> c\<lparr>cvalue := v\<rparr>
                 | TelControl \<Rightarrow> c\<lparr>cvalue := format_phone v\<rparr>
                 | CheckboxControl \<Rightarrow> c)
              else c) f"

definition toggle_box :: "string \<Rightarrow> form \<Rightarrow> form" where
  "toggle_box n f =
     map (\<lambda>c. if cname c = n \<and> ckind c = CheckboxControl then c\<lparr>cchecked := \<not> cchecked c\<rparr> else c) f"

fun page_step :: "nav_page \<Rightarrow> int \<Rightarrow> int \<Rightarrow> page_event \<Rightarrow> page \<Rightarrow> page" where
  "page_step pg off t SubmitAppointment p =
     (case appointment_submit \<lparr>now_ms = t, tz_offset_ms = off\<rparr> (appt_form p) (popups p) of
        (f, st) \<Rightarrow> p\<lparr>appt_form := f, popups := st\<rparr>)"
| "page_step pg off t SubmitContact p =
     (case contact_submit \<lparr>now_ms = t, tz_offset_ms = off\<rparr> (contact_form p) (popups p) of
        (f, st) \<Rightarrow> p\<lparr>contact_form := f, popups := st\<rparr>)"
| "page_step pg off t (PopupClose i) p = p\<lparr>popups := close_click i (popups p)\<rparr>"
| "page_step pg off t TimersDue p = p\<lparr>popups := fire_due t (popups p)\<rparr>"
| "page_step pg off t (NavClick c) p = p\<lparr>nav := nav_click pg c (nav p)\<rparr>"
| "page_step pg off t (TypeAppointment n v) p = p\<lparr>appt_form := type_into n v (appt_form p)\<rparr>"
| "page_step pg off t (ToggleAppointment n) p = p\<lparr>appt_form := toggle_box n (appt_form p)\<rparr>"
| "page_step pg off t (TypeContact n v) p = p\<lparr>contact_form := type_into n v (contact_form p)\<rparr>"

definition page_run :: "nav_page \<Rightarrow> int \<Rightarrow> (int \<times> page_event) list \<Rightarrow> page \<Rightarrow> page" where
  "page_run pg off es p = fold (\<lambda>(t, e). page_step pg off t e) es p"

definition page_init :: "nav_page \<Rightarrow> form \<Rightarrow> form \<Rightarrow> page" where
  "page_init pg fa fc =
     \<lparr>appt_form = form_reset fa, contact_form = form_reset fc, popups = presenter_init,
      nav = nav_init pg\<rparr>"

definition text_control :: "string \<Rightarrow> control" where
  "text_control n = \<lparr>cname = n, ckind = TextControl, cvalue = [], cdefault = [],
     cchecked = False, cdefault_checked = False, cdisabled = False\<rparr>"

definition appointment_markup :: form where
  "appointment_markup =
     [text_control ''firstName'', text_control ''lastName'', text_control ''email'',
      (text_control ''phone'')\<lparr>ckind := TelControl\<rparr>, text_control ''appointmentType'',
      text_control ''preferredDate'', text_control ''preferredTime'', text_control ''message'',
      (text_control ''consent'')\<lparr>ckind := CheckboxControl, cvalue := ''on'', cdefault := ''on''\<rparr>]"

definition booking_session :: "(int \<times> page_event) list" where
  "booking_session =
     [(1718409600000, TypeAppointment ''firstName'' ''Ann''),
      (1718409601000, TypeAppointment ''lastName'' ''Lee''),
      (1718409602000, TypeAppointment ''email'' ''ann@example.com''),
      (1718409603000, TypeAppointment ''phone'' ''5551234567''),
      (1718409604000, TypeAppointment ''appointmentType'' ''consultation''),
      (1718409605000, TypeAppointment ''preferredDate'' ''2024-06-20''),
      (1718409606000, TypeAppointment ''preferredTime'' ''morning''),
      (1718409607000, ToggleAppointment ''consent''),
      (1718409608000, SubmitAppointment)]"

lemma appointment_submit_inv:
  "presenter_inv st \<Longrightarrow> presenter_inv (snd (appointment_submit clk f st))"
  by (simp add: handler_simps showMessage_inv split: option.splits)

lemma contact_submit_inv:
  "presenter_inv st \<Longrightarrow> presenter_inv (snd (contact_submit clk f st))"
  by (simp add: handler_simps showMessage_inv split: option.splits)

lemma page_step_inv:
  "presenter_inv (popups p) \<Longrightarrow> presenter_inv (popups (page_step pg off t e p))"
proof (cases e)
  case SubmitAppointment
  assume "presenter_inv (popups p)"
  then show ?thesis using SubmitAppointment appointment_submit_inv
    by (auto split: prod.splits) (metis snd_conv)
next
  case SubmitContact
  assume "presenter_inv (popups p)"
  then show ?thesis using SubmitContact contact_submit_inv
    by (auto split: prod.splits) (metis snd_conv)
qed (simp_all add: close_click_def remove_node_inv fire_due_inv)

lemma page_run_inv:
  "presenter_inv (popups p) \<Longrightarrow> presenter_inv (popups (page_run pg off es p))"
  unfolding page_run_def
  by (induction es arbitrary: p) (auto intro: page_step_inv)

text \<open>At page level, whatever interleaving of submissions of either form, popup
  close clicks, timer runs, navigation clicks and typing occurs, at most one popup is
  attached.\<close>

lemma page_at_most_one_popup:
  "length (body_popups (popups (page_run pg off es (page_init pg fa fc)))) \<le> 1"
  using page_run_inv [of "page_init pg fa fc" pg off es] presenter_init_inv
  by (simp add: page_init_def presenter_inv_def)



text \<open>The end-to-end scenario of the specification: filling every appointment field
  with valid values, a future date and consent, then submitting, shows the success popup
  as the only popup and resets the form to its markup defaults.\<close>

lemma booking_end_to_end:
  "popups (page_run pg 0 booking_session (page_init pg appointment_markup [])) =
     showMessage appointment_success Success 1718409608000 presenter_init \<and>
   appt_form (page_run pg 0 booking_session (page_init pg appointment_markup [])) =
     form_reset appointment_markup"
  by (simp add: page_run_def booking_session_def page_init_def) code_simp

lemma type_into_other: "n \<notin> cname ` set f \<Longrightarrow> type_into n v f = f"
  by (induction f) (auto simp: type_into_def)

lemma type_into_tel:
  assumes "ckind c = TelControl" and "cname c \<notin> cname ` set (pre @ post)"
  shows "type_into (cname c) v (pre @ c # post) = pre @ c\<lparr>cvalue := format_phone v\<rparr> # post"
proof -
  have "type_into (cname c) v pre = pre" "type_into (cname c) v post = post"
    using assms(2) by (auto intro: type_into_other)
  with assms(1) show ?thesis by (simp add: type_into_def)
qed

text \<open>Whatever the user types into the appointment form's telephone field, the
  formatting listener never changes the phone check of a later submission: the check on
  the stored value equals \<^verbatim>\<open>isValidPhone\<close> of the typed text.\<close>

lemma typed_phone_validation:
  assumes "ckind c = TelControl" and "\<not> cdisabled c" and "cname c = ''phone''"
    and "''phone'' \<notin> cname ` set (pre @ post)"
  shows "isValidPhone (js_str (form_object (type_into ''phone'' v (pre @ c # post)) ''phone'')) =
         isValidPhone v"
proof -
  have "type_into ''phone'' v (pre @ c # post) = pre @ c\<lparr>cvalue := format_phone v\<rparr> # post"
    using type_into_tel [of c pre post v] assms(1,3,4) by simp
  moreover have "form_object (pre @ c\<lparr>cvalue := format_phone v\<rparr> # post) ''phone'' =
      Some (format_phone v)"
    using form_object_text [of "c\<lparr>cvalue := format_phone v\<rparr>" post pre] assms by auto
  ultimately show ?thesis by (simp add: js_str_def isValidPhone_def format_phone_digits)
qed

end
